theory Spec2Isabelle
  imports Main "HOL-Library.Monad_Syntax"
begin

section \<open>The socket.io text codec of \<^verbatim>\<open>protocol/socketio.go\<close>\<close>

text \<open>
  A shallow embedding of the encoder and the decoder of \<^verbatim>\<open>src/protocol/socketio.go\<close>.

  \<^item> A Go \<^verbatim>\<open>string\<close> is a sequence of bytes: it is a \<open>string\<close> (a \<open>char list\<close>, one
    \<open>char\<close> per byte), and \<^verbatim>\<open>len\<close> counts bytes.
  \<^item> A Go \<^verbatim>\<open>int\<close> is an \<open>int\<close>. The code does no arithmetic on message fields; the only
    place where the width of \<^verbatim>\<open>int\<close> matters is \<^verbatim>\<open>strconv.Atoi\<close>, whose range check is
    written out for a 64-bit platform.
  \<^item> A Go function that returns \<^verbatim>\<open>(value, error)\<close> returns a pair whose second component is
    an \<open>error option\<close>; \<open>None\<close> there is Go's \<^verbatim>\<open>nil\<close> error.
  \<^item> A slice expression \<^verbatim>\<open>s[i:j]\<close> panics at run time unless \<open>0 \<le> i \<le> j \<le> len s\<close>. Every
    function that slices therefore runs in the option monad: the result \<open>None\<close> is a run-time
    panic, \<open>Some r\<close> is a normal return of \<open>r\<close>.
\<close>

subsection \<open>Strings, indices and slices\<close>

definition len :: "string \<Rightarrow> int" where
  "len s = int (length s)"

text \<open>\<^verbatim>\<open>s[i:j]\<close>; \<^verbatim>\<open>s[i:]\<close> is \<open>slice s i (len s)\<close> and \<^verbatim>\<open>s[:j]\<close> is \<open>slice s 0 j\<close>.\<close>

definition slice :: "string \<Rightarrow> int \<Rightarrow> int \<Rightarrow> string option" where
  "slice s i j =
     (if 0 \<le> i \<and> i \<le> j \<and> j \<le> len s then Some (take (nat (j - i)) (drop (nat i) s)) else None)"

text \<open>\<^verbatim>\<open>strings.IndexByte\<close>: the index of the first occurrence of the byte, or \<open>-1\<close>.\<close>

fun IndexByte :: "string \<Rightarrow> char \<Rightarrow> int" where
  "IndexByte [] c = - 1"
| "IndexByte (x # xs) c =
     (if x = c then 0 else (let r = IndexByte xs c in if r = - 1 then - 1 else r + 1))"

definition byte :: "char \<Rightarrow> int" where
  "byte c = of_char c"

subsection \<open>Errors\<close>

text \<open>
  The two error values of the package, and the \<^verbatim>\<open>*strconv.NumError\<close> that
  \<^verbatim>\<open>strconv.Atoi\<close> returns (function name, offending text, cause).
\<close>

datatype strconv_error = ErrSyntax | ErrRange

datatype error =
    ErrorWrongMessageType
  | ErrorWrongPacket
  | NumError string string strconv_error

subsection \<open>The standard library functions the codec calls\<close>

text \<open>
  \<^verbatim>\<open>strconv.Itoa\<close>: the decimal digits of the number, after a minus sign when it is
  negative.
\<close>

function digits :: "int \<Rightarrow> string" where
  "digits n = (if n < 10 then [char_of (48 + n)] else digits (n div 10) @ [char_of (48 + n mod 10)])"
  by pat_completeness auto
termination
  by (relation "measure nat") auto

declare digits.simps [simp del]

definition Itoa :: "int \<Rightarrow> string" where
  "Itoa i = (if i < 0 then CHR ''-'' # digits (- i) else digits i)"

text \<open>
  \<^verbatim>\<open>strconv.ParseUint(s, 10, 64)\<close>, on the digits after the sign: the first byte that is not
  a decimal digit is a syntax error, unless the digits before it already exceed
  \<open>2\<^sup>6\<^sup>4 - 1\<close>, which is a range error. The empty text is a syntax error.
\<close>

fun parseDigits :: "int \<Rightarrow> string \<Rightarrow> strconv_error + int" where
  "parseDigits n [] = Inr n"
| "parseDigits n (c # cs) =
     (if byte c < 48 \<or> 57 < byte c then Inl ErrSyntax
      else if 2 ^ 64 - 1 < n * 10 + (byte c - 48) then Inl ErrRange
      else parseDigits (n * 10 + (byte c - 48)) cs)"

definition ParseUint :: "string \<Rightarrow> strconv_error + int" where
  "ParseUint s = (if s = [] then Inl ErrSyntax else parseDigits 0 s)"

text \<open>
  \<^verbatim>\<open>strconv.Atoi\<close> on a 64-bit platform: an optional sign \<^verbatim>\<open>+\<close> or \<^verbatim>\<open>-\<close>, then at least one
  decimal digit and nothing else; the value has to lie in \<open>-2\<^sup>6\<^sup>3 \<dots> 2\<^sup>6\<^sup>3 - 1\<close>. On a
  syntax error the value returned is 0, on a range error it is the nearest bound.
\<close>

definition Atoi :: "string \<Rightarrow> int \<times> error option" where
  "Atoi s =
     (if s = [] then (0, Some (NumError ''Atoi'' s ErrSyntax))
      else
        let neg = (hd s = CHR ''-'');
            s1 = (if hd s = CHR ''+'' \<or> hd s = CHR ''-'' then tl s else s)
        in case ParseUint s1 of
             Inl ErrSyntax \<Rightarrow> (0, Some (NumError ''Atoi'' s ErrSyntax))
           | Inl ErrRange \<Rightarrow>
               (if neg then - (2 ^ 63) else 2 ^ 63 - 1, Some (NumError ''Atoi'' s ErrRange))
           | Inr un \<Rightarrow>
               if \<not> neg \<and> 2 ^ 63 \<le> un then (2 ^ 63 - 1, Some (NumError ''Atoi'' s ErrRange))
               else if neg \<and> 2 ^ 63 < un then (- (2 ^ 63), Some (NumError ''Atoi'' s ErrRange))
               else (if neg then - un else un, None))"

text \<open>
  \<^verbatim>\<open>json.Marshal\<close> of a string: the text between double quotes, with the escapes of
  \<^verbatim>\<open>encoding/json\<close> (HTML escaping on, as \<^verbatim>\<open>Marshal\<close> has it). An ASCII byte is kept when
  it is printable and none of \<^verbatim>\<open>" & < >\<close> and the backslash; the quote and the backslash get
  a backslash before them; backspace, form feed, newline, carriage return and tab get their
  short escape; every other ASCII byte becomes a backslash and \<^verbatim>\<open>u00XX\<close>. A byte that does not
  start a valid UTF-8 sequence becomes the escape of U+FFFD; U+2028 and U+2029 become their
  escapes (a backslash, \<^verbatim>\<open>u\<close> and four hexadecimal digits); any other UTF-8 sequence is
  copied. Marshalling a string never fails.

  Two of these cases depend on the Go toolchain: one whose \<^verbatim>\<open>encoding/json\<close> rests on the
  second version of the package writes the three bytes of U+FFFD for an invalid byte, not
  the escape, and one older than Go 1.22 writes backspace and form feed as \<^verbatim>\<open>u0008\<close> and
  \<^verbatim>\<open>u000c\<close> escapes. The model follows the first version of the package as of Go 1.22. No
  theorem below rests on these cases: where a theorem needs the encoded method it either
  names \<open>jsonMarshal\<close> or assumes that the encoding leaves the method as it is, which every
  toolchain does for printable ASCII without \<^verbatim>\<open>" & < >\<close> and backslash.
\<close>

definition htmlSafe :: "char \<Rightarrow> bool" where
  "htmlSafe b \<longleftrightarrow>
     32 \<le> byte b \<and> byte b < 128 \<and>
     b \<noteq> CHR 0x22 \<and> b \<noteq> CHR ''&'' \<and> b \<noteq> CHR ''<'' \<and> b \<noteq> CHR ''>'' \<and> b \<noteq> CHR 0x5C"

definition hex :: "int \<Rightarrow> char" where
  "hex n = ''0123456789abcdef'' ! nat n"

definition contb :: "char \<Rightarrow> bool" where
  "contb c \<longleftrightarrow> 128 \<le> byte c \<and> byte c \<le> 191"

text \<open>
  \<^verbatim>\<open>utf8.DecodeRuneInString\<close>, reduced to what the encoder reads of it: the width of the
  UTF-8 sequence that starts the text, or 0 when its first byte starts no valid sequence.
  It is called on texts whose first byte is not ASCII.
\<close>

fun runeWidth :: "string \<Rightarrow> nat" where
  "runeWidth [] = 0"
| "runeWidth (b0 # bs) =
     (let x = byte b0 in
      if 194 \<le> x \<and> x \<le> 223 then
        (case bs of b1 # _ \<Rightarrow> if contb b1 then 2 else 0 | _ \<Rightarrow> 0)
      else if 224 \<le> x \<and> x \<le> 239 then
        (case bs of
           b1 # b2 # _ \<Rightarrow>
             if (if x = 224 then 160 else 128) \<le> byte b1
                \<and> byte b1 \<le> (if x = 237 then 159 else 191) \<and> contb b2
             then 3 else 0
         | _ \<Rightarrow> 0)
      else if 240 \<le> x \<and> x \<le> 244 then
        (case bs of
           b1 # b2 # b3 # _ \<Rightarrow>
             if (if x = 240 then 144 else 128) \<le> byte b1
                \<and> byte b1 \<le> (if x = 244 then 143 else 191) \<and> contb b2 \<and> contb b3
             then 4 else 0
         | _ \<Rightarrow> 0)
      else 0)"

fun jsonString :: "string \<Rightarrow> string" where
  "jsonString [] = []"
| "jsonString (b # bs) =
     (if byte b < 128 then
        (if htmlSafe b then [b]
         else if b = CHR 0x5C \<or> b = CHR 0x22 then [CHR 0x5C, b]
         else if b = CHR 0x08 then [CHR 0x5C, CHR ''b'']
         else if b = CHR 0x0C then [CHR 0x5C, CHR ''f'']
         else if b = CHR 0x0A then [CHR 0x5C, CHR ''n'']
         else if b = CHR 0x0D then [CHR 0x5C, CHR ''r'']
         else if b = CHR 0x09 then [CHR 0x5C, CHR ''t'']
         else [CHR 0x5C, CHR ''u'', CHR ''0'', CHR ''0'', hex (byte b div 16), hex (byte b mod 16)])
        @ jsonString bs
      else
        (let w = runeWidth (b # bs) in
         if w = 0 then CHR 0x5C # ''ufffd'' @ jsonString bs
         else if take 3 (b # bs) = [CHR 0xE2, CHR 0x80, CHR 0xA8]
           then CHR 0x5C # ''u2028'' @ jsonString (drop 2 bs)
         else if take 3 (b # bs) = [CHR 0xE2, CHR 0x80, CHR 0xA9]
           then CHR 0x5C # ''u2029'' @ jsonString (drop 2 bs)
         else take w (b # bs) @ jsonString (drop (w - 1) bs)))"

definition jsonMarshal :: "string \<Rightarrow> string \<times> error option" where
  "jsonMarshal s = ([CHR 0x22] @ jsonString s @ [CHR 0x22], None)"

subsection \<open>Messages\<close>

text \<open>
  Modelled from the spec: the declaration of the \<^verbatim>\<open>Message\<close> struct and of the eight
  \<^verbatim>\<open>MessageType\<close> constants is not in \<^verbatim>\<open>socketio.go\<close>. The spec gives the fields of a
  message (Kind, Namespace, AckId, Method, Args, Source) and its eight kinds; the code reads
  the kind as an \<^verbatim>\<open>int\<close> field \<^verbatim>\<open>Type\<close> and compares it with the constants. The constants are
  numbered in the order in which the spec lists them; the theorems below use of these
  numbers only that they are pairwise distinct.
\<close>

record Message =
  Type :: int
  Namespace :: string
  AckId :: int
  Method :: string
  Args :: string
  Source :: string

definition MessageTypeOpen :: int where "MessageTypeOpen = 0"
definition MessageTypeClose :: int where "MessageTypeClose = 1"
definition MessageTypePing :: int where "MessageTypePing = 2"
definition MessageTypePong :: int where "MessageTypePong = 3"
definition MessageTypeEmpty :: int where "MessageTypeEmpty = 4"
definition MessageTypeEmit :: int where "MessageTypeEmit = 5"
definition MessageTypeAckRequest :: int where "MessageTypeAckRequest = 6"
definition MessageTypeAckResponse :: int where "MessageTypeAckResponse = 7"

text \<open>The wire prefixes, lines 10 to 20 of the source.\<close>

definition "open" :: string where "open = ''0''"
definition msg :: string where "msg = ''4''"
definition emptyMessage :: string where "emptyMessage = ''40''"
definition commonMessage :: string where "commonMessage = ''42''"
definition ackMessage :: string where "ackMessage = ''43''"
definition CloseMessage :: string where "CloseMessage = ''1''"
definition PingMessage :: string where "PingMessage = ''2''"
definition PongMessage :: string where "PongMessage = ''3''"

subsection \<open>The encoder\<close>

definition typeToText :: "int \<Rightarrow> string \<times> error option" where
  "typeToText msgType =
     (if msgType = MessageTypeOpen then (open, None)
      else if msgType = MessageTypeClose then (CloseMessage, None)
      else if msgType = MessageTypePing then (PingMessage, None)
      else if msgType = MessageTypePong then (PongMessage, None)
      else if msgType = MessageTypeEmpty then (emptyMessage, None)
      else if msgType = MessageTypeEmit \<or> msgType = MessageTypeAckRequest then (commonMessage, None)
      else if msgType = MessageTypeAckResponse then (ackMessage, None)
      else ([], Some ErrorWrongMessageType))"

text \<open>
  The statement \<^verbatim>\<open>if comma { result += ","; comma = false }\<close>, which the encoder repeats
  before each field: it takes and returns the pair of the two variables.
\<close>

definition discharge :: "string \<times> bool \<Rightarrow> string \<times> bool" where
  "discharge rc = (case rc of (result, comma) \<Rightarrow> if comma then (result @ '','', False) else (result, comma))"

definition Encode :: "Message \<Rightarrow> string \<times> error option" where
  "Encode m =
     (case typeToText (Type m) of (result, err) \<Rightarrow>
      if err \<noteq> None then ([], err)
      else
        case (if Namespace m \<noteq> [] then (result @ Namespace m, True) else (result, False))
        of (result, comma) \<Rightarrow>
        if Type m = MessageTypeEmpty \<or> Type m = MessageTypePing \<or> Type m = MessageTypePong
        then (result, None)
        else
          case (if Type m = MessageTypeAckRequest \<or> Type m = MessageTypeAckResponse
                then (case discharge (result, comma) of (result, comma) \<Rightarrow>
                        (result @ Itoa (AckId m), comma))
                else (result, comma))
          of (result, comma) \<Rightarrow>
          if Type m = MessageTypeOpen \<or> Type m = MessageTypeClose
          then (case discharge (result, comma) of (result, comma) \<Rightarrow> (result @ Args m, None))
          else if Type m = MessageTypeAckResponse
          then (case discharge (result, comma) of (result, comma) \<Rightarrow>
                  (result @ ''['' @ Args m @ '']'', None))
          else
            case jsonMarshal (Method m) of (jsonMethod, err) \<Rightarrow>
            if err \<noteq> None then ([], err)
            else
              case discharge (result, comma) of (result, comma) \<Rightarrow>
              (result @ ''['' @ jsonMethod @ '','' @ Args m @ '']'', None))"

text \<open>\<^verbatim>\<open>MustEncode\<close> panics where \<^verbatim>\<open>Encode\<close> returns an error.\<close>

definition MustEncode :: "Message \<Rightarrow> string option" where
  "MustEncode m = (case Encode m of (result, err) \<Rightarrow> if err \<noteq> None then None else Some result)"

subsection \<open>The decoder\<close>

definition getMessageType :: "string \<Rightarrow> (int \<times> string \<times> error option) option" where
  "getMessageType data =
     (if len data = 0 then Some (0, data, Some ErrorWrongMessageType)
      else do {
        restText \<leftarrow> slice data 1 (len data);
        p \<leftarrow> slice data 0 1;
        if p = open then do { r \<leftarrow> slice data 1 (len data); Some (MessageTypeOpen, r, None) }
        else if p = CloseMessage then
          do { r \<leftarrow> slice data 1 (len data); Some (MessageTypeClose, r, None) }
        else if p = PingMessage then
          do { r \<leftarrow> slice data 1 (len data); Some (MessageTypePing, r, None) }
        else if p = PongMessage then
          do { r \<leftarrow> slice data 1 (len data); Some (MessageTypePong, r, None) }
        else if p = msg then
          (if len data = 1 then Some (0, [], Some ErrorWrongMessageType)
           else do {
             restText \<leftarrow> slice data 2 (len data);
             p2 \<leftarrow> slice data 0 2;
             if p2 = emptyMessage then Some (MessageTypeEmpty, restText, None)
             else if p2 = commonMessage then Some (MessageTypeAckRequest, restText, None)
             else if p2 = ackMessage then Some (MessageTypeAckResponse, restText, None)
             else Some (0, restText, Some ErrorWrongMessageType)
           })
        else Some (0, restText, Some ErrorWrongMessageType)
      })"

definition getNamespace :: "string \<Rightarrow> (string \<times> string) option" where
  "getNamespace text =
     (if len text = 0 then Some ([], [])
      else do {
        p \<leftarrow> slice text 0 1;
        if p = ''/'' then
          (let pos = IndexByte text CHR '','' in
           if pos = - 1 then Some (text, [])
           else do {
             namespace \<leftarrow> slice text 0 pos;
             if len text > pos + 1
             then do { restText \<leftarrow> slice text (pos + 1) (len text); Some (namespace, restText) }
             else Some (namespace, [])
           })
        else Some ([], text)
      })"

definition getAck :: "string \<Rightarrow> (int \<times> string \<times> error option) option" where
  "getAck text =
     (if len text = 0 then Some (0, [], Some ErrorWrongPacket)
      else
        let pos = IndexByte text CHR ''['' in
        if pos = - 1 then Some (0, [], Some ErrorWrongPacket)
        else do {
          num \<leftarrow> slice text 0 pos;
          case Atoi num of (ack, err) \<Rightarrow>
            if err \<noteq> None then Some (0, [], err)
            else do { r \<leftarrow> slice text pos (len text); Some (ack, r, None) }
        })"

text \<open>
  The loop of \<^verbatim>\<open>getMethod\<close>. Go's \<^verbatim>\<open>range\<close> over a string decodes UTF-8, and gives \<open>i\<close> as
  the byte offset of each character; the loop compares the character only with the ASCII
  characters \<^verbatim>\<open>"\<close> and \<^verbatim>\<open>,\<close>. Every ASCII byte of a string is a character of its own in that
  decoding, at its byte offset, and no other byte yields an ASCII character, so the loop
  is a loop over the bytes. Its state is \<open>(start, end, rest, countQuote)\<close>; \<open>Inl\<close> is the
  \<^verbatim>\<open>return\<close> inside the loop, \<open>Inr\<close> the state after the loop (at its end, or at \<^verbatim>\<open>break\<close>).
\<close>

fun getMethod_loop :: "string \<Rightarrow> int \<Rightarrow> int \<times> int \<times> int \<times> int \<Rightarrow> error + (int \<times> int \<times> int \<times> int)" where
  "getMethod_loop [] i st = Inr st"
| "getMethod_loop (c # cs) i (start, end', rest, countQuote) =
     (case (if c = CHR 0x22 then
              (if countQuote = 0 then Inr (i + 1, end', rest, countQuote + 1)
               else if countQuote = 1 then Inr (start, i, i + 1, countQuote + 1)
               else Inl ErrorWrongPacket)
            else Inr (start, end', rest, countQuote))
      of Inl e \<Rightarrow> Inl e
       | Inr (start, end', rest, countQuote) \<Rightarrow>
           if c = CHR '','' then
             (if countQuote < 2 then getMethod_loop cs (i + 1) (start, end', rest, countQuote)
              else Inr (start, end', i + 1, countQuote))
           else getMethod_loop cs (i + 1) (start, end', rest, countQuote))"

definition getMethod :: "string \<Rightarrow> (string \<times> string \<times> error option) option" where
  "getMethod text =
     (case getMethod_loop text 0 (0, 0, 0, 0) of
        Inl e \<Rightarrow> Some ([], [], Some e)
      | Inr (start, end', rest, countQuote) \<Rightarrow>
          if end' < start \<or> rest \<ge> len text then Some ([], [], Some ErrorWrongPacket)
          else do {
            meth \<leftarrow> slice text start end';
            arg \<leftarrow> slice text rest (len text - 1);
            Some (meth, arg, None)
          })"

text \<open>
  \<^verbatim>\<open>Decode\<close> returns \<^verbatim>\<open>(*Message, error)\<close>: the message is \<open>None\<close> where the code returns
  \<^verbatim>\<open>nil\<close>. The message starts as the zero value of the struct with \<^verbatim>\<open>Source\<close> set.
\<close>

definition Decode :: "string \<Rightarrow> (Message option \<times> error option) option" where
  "Decode data =
     (let m = \<lparr>Type = 0, Namespace = [], AckId = 0, Method = [], Args = [], Source = data\<rparr> in
      do {
        (t, rest, err) \<leftarrow> getMessageType data;
        let m = m\<lparr>Type := t\<rparr>;
        if err \<noteq> None then Some (None, err)
        else do {
          (namespace, rest) \<leftarrow> getNamespace rest;
          let m = m\<lparr>Namespace := namespace\<rparr>;
          if Type m = MessageTypeOpen then Some (Some (m\<lparr>Args := rest\<rparr>), None)
          else if Type m = MessageTypeClose \<or> Type m = MessageTypePing
                  \<or> Type m = MessageTypePong \<or> Type m = MessageTypeEmpty
          then Some (Some m, None)
          else do {
            (ack, rest, err) \<leftarrow> getAck rest;
            let m = m\<lparr>AckId := ack\<rparr>;
            if Type m = MessageTypeAckResponse then
              (if err \<noteq> None then Some (None, err)
               else do {
                 arg \<leftarrow> slice rest 1 (len rest - 1);
                 Some (Some (m\<lparr>Args := arg\<rparr>), None)
               })
            else do {
              (m, rest) \<leftarrow>
                (if err \<noteq> None
                 then do { r \<leftarrow> slice data 2 (len data); Some (m\<lparr>Type := MessageTypeEmit\<rparr>, r) }
                 else Some (m, rest));
              (meth, arg, err) \<leftarrow> getMethod rest;
              let m = m\<lparr>Method := meth, Args := arg\<rparr>;
              if err \<noteq> None then Some (None, err) else Some (Some m, None)
            }
          }
        }
      })"

section \<open>Lemmas\<close>

subsection \<open>Slices and the first occurrence of a byte\<close>

lemma slice_from: "0 \<le> i \<Longrightarrow> i \<le> len s \<Longrightarrow> slice s i (len s) = Some (drop (nat i) s)"
  by (simp add: slice_def len_def)

lemma slice_to: "0 \<le> j \<Longrightarrow> j \<le> len s \<Longrightarrow> slice s 0 j = Some (take (nat j) s)"
  by (simp add: slice_def len_def)

lemma IndexByte_ge: "- 1 \<le> IndexByte s c"
  by (induction s) (auto simp: Let_def)

lemma IndexByte_absent: "IndexByte s c = - 1 \<longleftrightarrow> c \<notin> set s"
proof (induction s)
  case Nil
  then show ?case by simp
next
  case (Cons a s)
  then show ?case using IndexByte_ge [of s c] by (auto simp: Let_def)
qed

lemma IndexByte_takeWhile:
  "c \<in> set s \<Longrightarrow> IndexByte s c = int (length (takeWhile (\<lambda>x. x \<noteq> c) s))"
  by (induction s) (auto simp: Let_def IndexByte_absent)

subsection \<open>The helpers of the decoder as functions on lists\<close>

lemma getMessageType_Nil: "getMessageType [] = Some (0, [], Some ErrorWrongMessageType)"
  by (simp add: getMessageType_def len_def)

lemma getMessageType_Cons:
  "getMessageType (c # cs) =
     Some (if c = CHR ''0'' then (MessageTypeOpen, cs, None)
           else if c = CHR ''1'' then (MessageTypeClose, cs, None)
           else if c = CHR ''2'' then (MessageTypePing, cs, None)
           else if c = CHR ''3'' then (MessageTypePong, cs, None)
           else if c = CHR ''4'' then
             (case cs of
                [] \<Rightarrow> (0, [], Some ErrorWrongMessageType)
              | d # ds \<Rightarrow>
                  if d = CHR ''0'' then (MessageTypeEmpty, ds, None)
                  else if d = CHR ''2'' then (MessageTypeAckRequest, ds, None)
                  else if d = CHR ''3'' then (MessageTypeAckResponse, ds, None)
                  else (0, ds, Some ErrorWrongMessageType))
           else (0, cs, Some ErrorWrongMessageType))"
  by (cases cs)
     (simp_all add: getMessageType_def len_def slice_def open_def CloseMessage_def PingMessage_def
        PongMessage_def msg_def emptyMessage_def commonMessage_def ackMessage_def)

lemma takeWhile_shorter:
  "c \<in> set s \<Longrightarrow> length (takeWhile (\<lambda>x. x \<noteq> c) s) < length s"
  by (induction s) auto

lemma slice_first: "s \<noteq> [] \<Longrightarrow> slice s 0 1 = Some [hd s]"
  by (cases s) (simp_all add: slice_def len_def)

lemma getNamespace_eq:
  "getNamespace text =
     Some (if text \<noteq> [] \<and> hd text = CHR ''/''
           then (takeWhile (\<lambda>x. x \<noteq> CHR '','') text, tl (dropWhile (\<lambda>x. x \<noteq> CHR '','') text))
           else ([], text))"
proof (cases "text = []")
  case True
  then show ?thesis by (simp add: getNamespace_def len_def)
next
  case ne: False
  then have l0: "len text \<noteq> 0" by (simp add: len_def)
  note first = slice_first [OF ne]
  show ?thesis
  proof (cases "CHR '','' \<in> set text")
    case False
    then have ix: "IndexByte text CHR '','' = - 1" by (simp add: IndexByte_absent)
    have tw: "takeWhile (\<lambda>x. x \<noteq> CHR '','') text = text"
      using False by (auto simp: takeWhile_eq_all_conv)
    have dw: "dropWhile (\<lambda>x. x \<noteq> CHR '','') text = []"
      using False by (auto simp: dropWhile_eq_Nil_conv)
    show ?thesis using ne l0
      by (simp add: getNamespace_def first ix tw dw)
  next
    case True
    let ?p = "length (takeWhile (\<lambda>x. x \<noteq> CHR '','') text)"
    have pos: "IndexByte text CHR '','' = int ?p" using True by (rule IndexByte_takeWhile)
    have lt: "?p < length text" using True
      by (rule takeWhile_shorter)
    have tk: "take ?p text = takeWhile (\<lambda>x. x \<noteq> CHR '','') text"
      by (rule takeWhile_eq_take [symmetric])
    have dr: "drop ?p text = dropWhile (\<lambda>x. x \<noteq> CHR '','') text"
      by (rule dropWhile_eq_drop [symmetric])
    have dr1: "drop (Suc ?p) text = tl (dropWhile (\<lambda>x. x \<noteq> CHR '','') text)"
      using dr by (metis drop_Suc tl_drop)
    have s1: "slice text 0 (int ?p) = Some (takeWhile (\<lambda>x. x \<noteq> CHR '','') text)"
      using lt tk slice_to [of "int ?p" "text"] by (simp add: len_def)
    have s2: "slice text (int ?p + 1) (len text) = Some (tl (dropWhile (\<lambda>x. x \<noteq> CHR '','') text))"
      using lt dr1 slice_from [of "int ?p + 1" "text"] by (simp add: len_def nat_add_distrib)
    have e: "\<not> (len text > int ?p + 1) \<Longrightarrow> tl (dropWhile (\<lambda>x. x \<noteq> CHR '','') text) = []"
      using dr1 lt by (simp add: len_def)
    show ?thesis using ne l0 e
      by (simp add: getNamespace_def first pos s1 s2 Let_def)
  qed
qed

lemma getAck_eq:
  "getAck text =
     Some (if CHR ''['' \<notin> set text then (0, [], Some ErrorWrongPacket)
           else case Atoi (takeWhile (\<lambda>x. x \<noteq> CHR ''['') text) of
                  (ack, None) \<Rightarrow> (ack, dropWhile (\<lambda>x. x \<noteq> CHR ''['') text, None)
                | (ack, Some e) \<Rightarrow> (0, [], Some e))"
proof (cases "CHR ''['' \<in> set text")
  case False
  then have "IndexByte text CHR ''['' = - 1" by (simp add: IndexByte_absent)
  with False show ?thesis by (simp add: getAck_def)
next
  case True
  let ?p = "length (takeWhile (\<lambda>x. x \<noteq> CHR ''['') text)"
  have pos: "IndexByte text CHR ''['' = int ?p" using True by (rule IndexByte_takeWhile)
  have lt: "?p < length text" using True by (rule takeWhile_shorter)
  have l0: "len text \<noteq> 0" using lt by (auto simp: len_def)
  have tk: "take ?p text = takeWhile (\<lambda>x. x \<noteq> CHR ''['') text"
    by (rule takeWhile_eq_take [symmetric])
  have dr: "drop ?p text = dropWhile (\<lambda>x. x \<noteq> CHR ''['') text"
    by (rule dropWhile_eq_drop [symmetric])
  have s1: "slice text 0 (int ?p) = Some (takeWhile (\<lambda>x. x \<noteq> CHR ''['') text)"
    using lt tk slice_to [of "int ?p" "text"] by (simp add: len_def)
  have s2: "slice text (int ?p) (len text) = Some (dropWhile (\<lambda>x. x \<noteq> CHR ''['') text)"
    using lt dr slice_from [of "int ?p" "text"] by (simp add: len_def)
  show ?thesis using True l0
    by (simp add: getAck_def pos s1 s2 Let_def split: prod.splits option.splits)
qed

subsection \<open>\<^verbatim>\<open>getMethod\<close> returns, and fails only with \<^verbatim>\<open>ErrorWrongPacket\<close>\<close>

lemma getMethod_loop_bounds:
  "getMethod_loop cs i (s, e, r, q) = Inr (s', e', r', q') \<Longrightarrow>
   0 \<le> i \<Longrightarrow> 0 \<le> s \<Longrightarrow> 0 \<le> e \<Longrightarrow> e \<le> i \<Longrightarrow> 0 \<le> r \<Longrightarrow>
   0 \<le> s' \<and> 0 \<le> e' \<and> e' \<le> i + len cs \<and> 0 \<le> r'"
proof (induction cs arbitrary: i s e r q)
  case Nil
  then show ?case by (simp add: len_def)
next
  case (Cons c cs)
  show ?case
  proof (cases "c = CHR 0x22")
    case quote: True
    then have nc: "c \<noteq> CHR '',''" by simp
    consider "q = 0" | "q = 1" | "q \<noteq> 0 \<and> q \<noteq> 1" by blast
    then show ?thesis
    proof cases
      case 1
      with Cons.prems quote have "getMethod_loop cs (i + 1) (i + 1, e, r, 1) = Inr (s', e', r', q')"
        by simp
      from Cons.IH [OF this] Cons.prems(2-) show ?thesis by (simp add: len_def)
    next
      case 2
      with Cons.prems quote have "getMethod_loop cs (i + 1) (s, i, i + 1, 2) = Inr (s', e', r', q')"
        by simp
      from Cons.IH [OF this] Cons.prems(2-) show ?thesis by (simp add: len_def)
    next
      case 3
      with Cons.prems quote show ?thesis by simp
    qed
  next
    case nq: False
    show ?thesis
    proof (cases "c = CHR '','' \<and> \<not> q < 2")
      case True
      with Cons.prems nq show ?thesis by (auto simp: len_def)
    next
      case False
      with Cons.prems nq have "getMethod_loop cs (i + 1) (s, e, r, q) = Inr (s', e', r', q')"
        by (auto split: if_splits)
      from Cons.IH [OF this] Cons.prems(2-) show ?thesis by (simp add: len_def)
    qed
  qed
qed

lemma getMethod_loop_error: "getMethod_loop cs i st = Inl e \<Longrightarrow> e = ErrorWrongPacket"
proof (induction cs arbitrary: i st)
  case Nil
  then show ?case by simp
next
  case (Cons c cs)
  obtain s e' r q where st: "st = (s, e', r, q)" by (cases st) auto
  from Cons.prems show ?case unfolding st
    by (auto split: if_splits dest: Cons.IH)
qed

lemma getMethod_returns:
  "\<exists>meth arg err. getMethod text = Some (meth, arg, err) \<and>
     (err = None \<or> (err = Some ErrorWrongPacket \<and> meth = [] \<and> arg = []))"
proof (cases "getMethod_loop text 0 (0, 0, 0, 0)")
  case (Inl e)
  then have "e = ErrorWrongPacket" by (rule getMethod_loop_error)
  with Inl show ?thesis by (simp add: getMethod_def)
next
  case (Inr st)
  obtain s e r q where st: "st = (s, e, r, q)" by (cases st) auto
  from getMethod_loop_bounds [OF Inr [unfolded st]]
  have b: "0 \<le> s" "0 \<le> e" "e \<le> len text" "0 \<le> r" by simp_all
  show ?thesis
  proof (cases "e < s \<or> r \<ge> len text")
    case True
    with Inr st show ?thesis by (auto simp: getMethod_def)
  next
    case False
    with b have "slice text s e \<noteq> None" "slice text r (len text - 1) \<noteq> None"
      by (auto simp: slice_def)
    with False Inr st show ?thesis by (auto simp: getMethod_def)
  qed
qed

subsection \<open>\<^verbatim>\<open>Atoi\<close> reads what \<^verbatim>\<open>Itoa\<close> writes\<close>

lemma byte_digit: "0 \<le> d \<Longrightarrow> d < 10 \<Longrightarrow> byte (char_of (48 + d)) = 48 + d"
  by (simp add: byte_def of_char_of)

lemma digits_bytes: "0 \<le> n \<Longrightarrow> c \<in> set (digits n) \<Longrightarrow> 48 \<le> byte c \<and> byte c \<le> 57"
proof (induction n rule: digits.induct)
  case (1 n)
  show ?case
  proof (cases "n < 10")
    case True
    with "1.prems" show ?thesis by (simp add: digits.simps [of n] byte_digit)
  next
    case False
    have m: "0 \<le> n mod 10" "n mod 10 < 10" by simp_all
    from False "1.prems" have "c \<in> set (digits (n div 10)) \<or> c = char_of (48 + n mod 10)"
      by (auto simp: digits.simps [of n])
    then show ?thesis
    proof
      assume "c \<in> set (digits (n div 10))"
      with "1.IH" [OF False] "1.prems"(1) show ?thesis by simp
    next
      assume "c = char_of (48 + n mod 10)"
      then show ?thesis using byte_digit [OF m] by simp
    qed
  qed
qed

lemma digits_not_Nil: "digits n \<noteq> []"
  by (simp add: digits.simps [of n])

lemma parseDigits_append:
  "parseDigits a (xs @ ys) = (case parseDigits a xs of Inl e \<Rightarrow> Inl e | Inr b \<Rightarrow> parseDigits b ys)"
  by (induction xs arbitrary: a) auto

lemma parseDigits_digits:
  "0 \<le> n \<Longrightarrow> n \<le> 2 ^ 64 - 1 \<Longrightarrow> parseDigits 0 (digits n) = Inr n"
proof (induction n rule: digits.induct)
  case (1 n)
  show ?case
  proof (cases "n < 10")
    case True
    with "1.prems" show ?thesis by (simp add: digits.simps [of n] byte_digit)
  next
    case False
    have m: "0 \<le> n mod 10" "n mod 10 < 10" by simp_all
    have ih: "parseDigits 0 (digits (n div 10)) = Inr (n div 10)"
      using "1.IH" [OF False] "1.prems" by simp
    have n: "n div 10 * 10 + n mod 10 = n" by simp
    have lt: "\<not> n mod 10 < 0" "\<not> 9 < n mod 10" using m by linarith+
    show ?thesis
      using "1.prems"
      by (simp add: digits.simps [of n] False parseDigits_append ih byte_digit [OF m] n lt)
  qed
qed

lemma hd_digits: "0 \<le> n \<Longrightarrow> 48 \<le> byte (hd (digits n)) \<and> byte (hd (digits n)) \<le> 57"
  using digits_bytes [of n "hd (digits n)"] digits_not_Nil [of n] by simp

lemma Atoi_Itoa: "- (2 ^ 63) \<le> n \<Longrightarrow> n < 2 ^ 63 \<Longrightarrow> Atoi (Itoa n) = (n, None)"
proof (cases "n < 0")
  case True
  assume r: "- (2 ^ 63) \<le> n" "n < 2 ^ 63"
  have p: "parseDigits 0 (digits (- n)) = Inr (- n)"
    using True r by (intro parseDigits_digits) simp_all
  show ?thesis using True r
    by (simp add: Atoi_def Itoa_def ParseUint_def digits_not_Nil p)
next
  case False
  assume r: "- (2 ^ 63) \<le> n" "n < 2 ^ 63"
  have p: "parseDigits 0 (digits n) = Inr n"
    using False r by (intro parseDigits_digits) simp_all
  have h: "hd (digits n) \<noteq> CHR ''-''" "hd (digits n) \<noteq> CHR ''+''"
    using hd_digits [of n] False by (auto simp: byte_def)
  show ?thesis using False r
    by (simp add: Atoi_def Itoa_def ParseUint_def digits_not_Nil p h)
qed

lemma Atoi_error: "Atoi s = (n, Some e) \<Longrightarrow> \<exists>k. e = NumError ''Atoi'' s k"
  by (auto simp: Atoi_def Let_def split: if_splits sum.splits strconv_error.splits)

lemma Itoa_bytes:
  "c \<in> set (Itoa n) \<Longrightarrow> c = CHR ''-'' \<or> (48 \<le> byte c \<and> byte c \<le> 57)"
  using digits_bytes [of n c] digits_bytes [of "- n" c]
  by (auto simp: Itoa_def split: if_splits)

lemma Itoa_not_Nil: "Itoa n \<noteq> []"
  by (simp add: Itoa_def digits_not_Nil)

subsection \<open>\<^verbatim>\<open>Decode\<close>, by the prefix of the input\<close>

lemmas kind_defs =
  MessageTypeOpen_def MessageTypeClose_def MessageTypePing_def MessageTypePong_def
  MessageTypeEmpty_def MessageTypeEmit_def MessageTypeAckRequest_def MessageTypeAckResponse_def

lemma Decode_Nil: "Decode [] = Some (None, Some ErrorWrongMessageType)"
  by (simp add: Decode_def getMessageType_Nil)

lemma Decode_Open:
  "getNamespace r = Some (ns, rest) \<Longrightarrow>
   Decode (CHR ''0'' # r) =
     Some (Some \<lparr>Type = MessageTypeOpen, Namespace = ns, AckId = 0, Method = [], Args = rest,
                  Source = CHR ''0'' # r\<rparr>, None)"
  by (simp add: Decode_def getMessageType_Cons)

lemma Decode_Close:
  "getNamespace r = Some (ns, rest) \<Longrightarrow>
   Decode (CHR ''1'' # r) =
     Some (Some \<lparr>Type = MessageTypeClose, Namespace = ns, AckId = 0, Method = [], Args = [],
                  Source = CHR ''1'' # r\<rparr>, None)"
  by (simp add: Decode_def getMessageType_Cons kind_defs)

lemma Decode_Ping:
  "getNamespace r = Some (ns, rest) \<Longrightarrow>
   Decode (CHR ''2'' # r) =
     Some (Some \<lparr>Type = MessageTypePing, Namespace = ns, AckId = 0, Method = [], Args = [],
                  Source = CHR ''2'' # r\<rparr>, None)"
  by (simp add: Decode_def getMessageType_Cons kind_defs)

lemma Decode_Pong:
  "getNamespace r = Some (ns, rest) \<Longrightarrow>
   Decode (CHR ''3'' # r) =
     Some (Some \<lparr>Type = MessageTypePong, Namespace = ns, AckId = 0, Method = [], Args = [],
                  Source = CHR ''3'' # r\<rparr>, None)"
  by (simp add: Decode_def getMessageType_Cons kind_defs)

lemma Decode_Empty:
  "getNamespace r = Some (ns, rest) \<Longrightarrow>
   Decode (CHR ''4'' # CHR ''0'' # r) =
     Some (Some \<lparr>Type = MessageTypeEmpty, Namespace = ns, AckId = 0, Method = [], Args = [],
                  Source = CHR ''4'' # CHR ''0'' # r\<rparr>, None)"
  by (simp add: Decode_def getMessageType_Cons kind_defs)

lemma Decode_unknown:
  "c \<notin> {CHR ''0'', CHR ''1'', CHR ''2'', CHR ''3'', CHR ''4''} \<Longrightarrow>
   Decode (c # r) = Some (None, Some ErrorWrongMessageType)"
  by (simp add: Decode_def getMessageType_Cons)

lemma Decode_4: "Decode [CHR ''4''] = Some (None, Some ErrorWrongMessageType)"
  by (simp add: Decode_def getMessageType_Cons)

lemma Decode_4_unknown:
  "d \<notin> {CHR ''0'', CHR ''2'', CHR ''3''} \<Longrightarrow>
   Decode (CHR ''4'' # d # r) = Some (None, Some ErrorWrongMessageType)"
  by (simp add: Decode_def getMessageType_Cons)

lemma Decode_AckResponse:
  "getNamespace r = Some (ns, rest) \<Longrightarrow> getAck rest = Some (ack, rest', err) \<Longrightarrow>
   Decode (CHR ''4'' # CHR ''3'' # r) =
     (if err \<noteq> None then Some (None, err)
      else case slice rest' 1 (len rest' - 1) of
             None \<Rightarrow> None
           | Some arg \<Rightarrow>
               Some (Some \<lparr>Type = MessageTypeAckResponse, Namespace = ns, AckId = ack,
                            Method = [], Args = arg, Source = CHR ''4'' # CHR ''3'' # r\<rparr>, None))"
  by (simp add: Decode_def getMessageType_Cons kind_defs split: option.splits)

lemma Decode_common:
  "getNamespace r = Some (ns, rest) \<Longrightarrow> getAck rest = Some (ack, rest', err) \<Longrightarrow>
   getMethod (if err \<noteq> None then r else rest') = Some (meth, arg, err') \<Longrightarrow>
   Decode (CHR ''4'' # CHR ''2'' # r) =
     (if err' \<noteq> None then Some (None, err')
      else Some (Some \<lparr>Type = (if err \<noteq> None then MessageTypeEmit else MessageTypeAckRequest),
                        Namespace = ns, AckId = ack, Method = meth, Args = arg,
                        Source = CHR ''4'' # CHR ''2'' # r\<rparr>, None))"
  by (auto simp: Decode_def getMessageType_Cons kind_defs slice_def len_def)

lemma getNamespace_returns: "\<exists>ns rest. getNamespace r = Some (ns, rest)"
  by (simp add: getNamespace_eq)

lemma getAck_returns:
  "\<exists>ack rest err. getAck text = Some (ack, rest, err) \<and>
     (err = None \<or> err = Some ErrorWrongPacket
      \<or> (\<exists>s k. err = Some (NumError ''Atoi'' s k)))"
proof (cases "Atoi (takeWhile (\<lambda>x. x \<noteq> CHR ''['') text)")
  case (Pair n err)
  show ?thesis
  proof (cases err)
    case None
    with Pair show ?thesis by (simp add: getAck_eq)
  next
    case (Some e)
    with Pair Atoi_error [of _ n e] show ?thesis by (auto simp: getAck_eq)
  qed
qed

lemma Decode_common_not_WrongMessageType:
  "Decode (CHR ''4'' # CHR ''2'' # r) \<noteq> Some (None, Some ErrorWrongMessageType)"
proof -
  obtain ns rest where n: "getNamespace r = Some (ns, rest)"
    using getNamespace_returns by blast
  obtain ack rest' err where a: "getAck rest = Some (ack, rest', err)"
    using getAck_returns by blast
  obtain meth arg err' where m: "getMethod (if err \<noteq> None then r else rest') = Some (meth, arg, err')"
    and e: "err' = None \<or> err' = Some ErrorWrongPacket"
    using getMethod_returns by blast
  from e show ?thesis unfolding Decode_common [OF n a m] by auto
qed

lemma Decode_AckResponse_not_WrongMessageType:
  "Decode (CHR ''4'' # CHR ''3'' # r) \<noteq> Some (None, Some ErrorWrongMessageType)"
proof -
  obtain ns rest where n: "getNamespace r = Some (ns, rest)"
    using getNamespace_returns by blast
  obtain ack rest' err where a: "getAck rest = Some (ack, rest', err)"
    and e: "err = None \<or> err = Some ErrorWrongPacket \<or> (\<exists>s k. err = Some (NumError ''Atoi'' s k))"
    using getAck_returns by blast
  from e show ?thesis unfolding Decode_AckResponse [OF n a] by (auto split: option.splits)
qed

lemma Decode_WrongMessageType_Cons:
  "(Decode (c # cs) = Some (None, Some ErrorWrongMessageType)) =
     (c \<notin> {CHR ''0'', CHR ''1'', CHR ''2'', CHR ''3''} \<and>
      (c = CHR ''4'' \<longrightarrow> cs = [] \<or> hd cs \<notin> {CHR ''0'', CHR ''2'', CHR ''3''}))"
proof -
  obtain ns rest where n: "getNamespace cs = Some (ns, rest)"
    using getNamespace_returns by blast
  obtain ns' rest' where n': "getNamespace (tl cs) = Some (ns', rest')"
    using getNamespace_returns by blast
  consider "c = CHR ''0''" | "c = CHR ''1''" | "c = CHR ''2''" | "c = CHR ''3''"
    | "c = CHR ''4''" "cs = []"
    | d ds where "c = CHR ''4''" "cs = d # ds" "d = CHR ''0''"
    | d ds where "c = CHR ''4''" "cs = d # ds" "d = CHR ''2''"
    | d ds where "c = CHR ''4''" "cs = d # ds" "d = CHR ''3''"
    | d ds where "c = CHR ''4''" "cs = d # ds" "d \<notin> {CHR ''0'', CHR ''2'', CHR ''3''}"
    | "c \<notin> {CHR ''0'', CHR ''1'', CHR ''2'', CHR ''3'', CHR ''4''}"
    by (cases cs) auto
  then show ?thesis
  proof cases
    case 1 then show ?thesis by (simp add: Decode_Open [OF n])
  next
    case 2 then show ?thesis by (simp add: Decode_Close [OF n])
  next
    case 3 then show ?thesis by (simp add: Decode_Ping [OF n])
  next
    case 4 then show ?thesis by (simp add: Decode_Pong [OF n])
  next
    case 5 then show ?thesis by (simp add: Decode_4)
  next
    case 6 with n' show ?thesis by (simp add: Decode_Empty)
  next
    case 7 then show ?thesis by (simp add: Decode_common_not_WrongMessageType)
  next
    case 8 then show ?thesis by (simp add: Decode_AckResponse_not_WrongMessageType)
  next
    case 9 then show ?thesis by (simp add: Decode_4_unknown)
  next
    case 10 then show ?thesis by (simp add: Decode_unknown)
  qed
qed

lemma take2_common: "take 2 data = commonMessage \<Longrightarrow> data = CHR ''4'' # CHR ''2'' # drop 2 data"
  by (cases data; cases "tl data") (auto simp: commonMessage_def)

lemma take2_ack: "take 2 data = ackMessage \<Longrightarrow> data = CHR ''4'' # CHR ''3'' # drop 2 data"
  by (cases data; cases "tl data") (auto simp: ackMessage_def)

lemma dropWhile_first:
  "c \<in> set t \<Longrightarrow> \<exists>b. dropWhile (\<lambda>x. x \<noteq> c) t = c # b"
  by (induction t) auto

lemma getAck_rest_bracket: "getAck t = Some (ack, rest', None) \<Longrightarrow> \<exists>b. rest' = CHR ''['' # b"
proof -
  assume a: "getAck t = Some (ack, rest', None)"
  then have in_t: "CHR ''['' \<in> set t"
    by (auto simp: getAck_eq split: if_splits)
  with a have r: "rest' = dropWhile (\<lambda>x. x \<noteq> CHR ''['') t"
    by (auto simp: getAck_eq split: prod.splits option.splits)
  from dropWhile_first [OF in_t] r show ?thesis by simp
qed

lemma slice_inner: "slice (c # b @ [d]) 1 (len (c # b @ [d]) - 1) = Some b"
  by (simp add: slice_def len_def)

lemma jsonString_safe: "\<forall>c \<in> set s. htmlSafe c \<Longrightarrow> jsonString s = s"
  by (induction s) (auto simp: htmlSafe_def)

lemma byte_bracket: "byte CHR ''['' = 91" "byte CHR ''/'' = 47" "byte CHR ''-'' = 45"
  by (simp_all add: byte_def)

lemma Itoa_no_bracket: "CHR ''['' \<notin> set (Itoa n)"
  using Itoa_bytes [of "CHR ''[''" n] by (auto simp: byte_bracket)

lemma takeWhile_first: "c \<notin> set a \<Longrightarrow> takeWhile (\<lambda>x. x \<noteq> c) (a @ c # t) = a"
  by (induction a) auto

lemma dropWhile_first_append: "c \<notin> set a \<Longrightarrow> dropWhile (\<lambda>x. x \<noteq> c) (a @ c # t) = c # t"
  by (induction a) auto

lemma getAck_Itoa:
  "- (2 ^ 63) \<le> n \<Longrightarrow> n < 2 ^ 63 \<Longrightarrow> getAck (Itoa n @ CHR ''['' # t) = Some (n, CHR ''['' # t, None)"
  by (simp add: getAck_eq takeWhile_first dropWhile_first_append Itoa_no_bracket Atoi_Itoa)

subsection \<open>The loop of \<^verbatim>\<open>getMethod\<close>, by the quotes of the body\<close>

lemma loop_skip_before:
  "CHR 0x22 \<notin> set a \<Longrightarrow> cq < 2 \<Longrightarrow>
   getMethod_loop (a @ t) i (s, e, r, cq) = getMethod_loop t (i + len a) (s, e, r, cq)"
  by (induction a arbitrary: i) (auto simp: len_def add.assoc)

lemma loop_skip_plain:
  "CHR 0x22 \<notin> set a \<Longrightarrow> CHR '','' \<notin> set a \<Longrightarrow>
   getMethod_loop (a @ t) i (s, e, r, cq) = getMethod_loop t (i + len a) (s, e, r, cq)"
  by (induction a arbitrary: i) (auto simp: len_def add.assoc)

lemma loop_two_quotes:
  assumes "CHR 0x22 \<notin> set a" and "CHR 0x22 \<notin> set m"
    and "CHR 0x22 \<notin> set b" and "CHR '','' \<notin> set b"
  shows "getMethod_loop (a @ CHR 0x22 # m @ CHR 0x22 # b @ t) 0 (0, 0, 0, 0) =
         getMethod_loop t (len a + len m + len b + 2)
           (len a + 1, len a + len m + 1, len a + len m + 2, 2)"
proof -
  have "getMethod_loop (a @ CHR 0x22 # m @ CHR 0x22 # b @ t) 0 (0, 0, 0, 0) =
        getMethod_loop (CHR 0x22 # m @ CHR 0x22 # b @ t) (len a) (0, 0, 0, 0)"
    using assms(1) by (simp add: loop_skip_before)
  also have "\<dots> = getMethod_loop (m @ CHR 0x22 # b @ t) (len a + 1) (len a + 1, 0, 0, 1)"
    by simp
  also have "\<dots> = getMethod_loop (CHR 0x22 # b @ t) (len a + 1 + len m) (len a + 1, 0, 0, 1)"
    using assms(2) by (simp add: loop_skip_before)
  also have "\<dots> = getMethod_loop (b @ t) (len a + len m + 2)
                     (len a + 1, len a + len m + 1, len a + len m + 2, 2)"
    by (simp add: add.commute add.left_commute)
  also have "\<dots> = getMethod_loop t (len a + len m + 2 + len b)
                     (len a + 1, len a + len m + 1, len a + len m + 2, 2)"
    using assms(3,4) by (simp add: loop_skip_plain)
  finally show ?thesis by (simp add: add.commute add.left_commute)
qed

lemma len_nonneg: "0 \<le> len s"
  by (simp add: len_def)

lemma slice_mid: "slice (p @ m @ z) (len p) (len p + len m) = Some m"
  by (simp add: slice_def len_def)

lemma slice_tail: "c \<noteq> [] \<Longrightarrow> slice (p @ c) (len p) (len (p @ c) - 1) = Some (butlast c)"
proof (cases c rule: rev_cases)
  case Nil
  assume "c \<noteq> []"
  with Nil show ?thesis by simp
next
  case (snoc ys y)
  have "slice (p @ ys @ [y]) (len p) (len p + len ys) = Some ys" by (rule slice_mid)
  then show ?thesis by (simp add: snoc len_def)
qed

text \<open>
  A body without any quote leaves \<^verbatim>\<open>start\<close>, \<^verbatim>\<open>end\<close> and \<^verbatim>\<open>rest\<close> at their zero values. These pass
  the final check of \<^verbatim>\<open>getMethod\<close>, the one that rejects a body with one quote, and the body
  is returned without its last character, with an empty method.
\<close>

lemma getMethod_no_quote:
  assumes "CHR 0x22 \<notin> set t"
  shows "getMethod t = Some (if t = [] then ([], [], Some ErrorWrongPacket) else ([], butlast t, None))"
proof -
  have "getMethod_loop (t @ []) 0 (0, 0, 0, 0) = getMethod_loop [] (0 + len t) (0, 0, 0, 0)"
    using assms by (intro loop_skip_before) simp_all
  then have l: "getMethod_loop t 0 (0, 0, 0, 0) = Inr (0, 0, 0, 0)" by simp
  have s: "t \<noteq> [] \<Longrightarrow> slice t 0 (len t - 1) = Some (butlast t)"
    using slice_tail [of t "[]"] by (simp add: len_def)
  show ?thesis
    by (auto simp: getMethod_def l s) (simp_all add: len_def slice_def)
qed

lemma getMethod_one_quote:
  assumes "CHR 0x22 \<notin> set a" and "CHR 0x22 \<notin> set m"
  shows "getMethod (a @ CHR 0x22 # m) = Some ([], [], Some ErrorWrongPacket)"
proof -
  have "getMethod_loop (a @ CHR 0x22 # m) 0 (0, 0, 0, 0) =
        getMethod_loop (CHR 0x22 # m) (len a) (0, 0, 0, 0)"
    using assms(1) by (simp add: loop_skip_before)
  also have "\<dots> = getMethod_loop (m @ []) (len a + 1) (len a + 1, 0, 0, 1)"
    by simp
  also have "\<dots> = getMethod_loop [] (len a + 1 + len m) (len a + 1, 0, 0, 1)"
    using assms(2) by (intro loop_skip_before) simp_all
  finally have "getMethod_loop (a @ CHR 0x22 # m) 0 (0, 0, 0, 0) = Inr (len a + 1, 0, 0, 1)"
    by simp
  then show ?thesis by (simp add: getMethod_def len_def)
qed

lemma getMethod_third_quote:
  assumes "CHR 0x22 \<notin> set a" and "CHR 0x22 \<notin> set m"
    and "CHR 0x22 \<notin> set b" and "CHR '','' \<notin> set b"
  shows "getMethod (a @ CHR 0x22 # m @ CHR 0x22 # b @ CHR 0x22 # c) =
         Some ([], [], Some ErrorWrongPacket)"
  by (simp add: getMethod_def loop_two_quotes [OF assms])

lemma getMethod_comma:
  assumes "CHR 0x22 \<notin> set a" and "CHR 0x22 \<notin> set m"
    and "CHR 0x22 \<notin> set b" and "CHR '','' \<notin> set b"
  shows "getMethod (a @ CHR 0x22 # m @ CHR 0x22 # b @ CHR '','' # c) =
         Some (if c = [] then ([], [], Some ErrorWrongPacket) else (m, butlast c, None))"
proof -
  let ?t = "a @ CHR 0x22 # m @ CHR 0x22 # b @ CHR '','' # c"
  have l: "getMethod_loop ?t 0 (0, 0, 0, 0) =
           Inr (len a + 1, len a + len m + 1, len a + len m + len b + 3, 2)"
    by (simp add: loop_two_quotes [OF assms])
  have s1: "slice ?t (len a + 1) (len a + len m + 1) = Some m"
    using slice_mid [of "a @ [CHR 0x22]" m "CHR 0x22 # b @ CHR '','' # c"]
    by (simp add: len_def add.commute add.left_commute)
  have s2: "c \<noteq> [] \<Longrightarrow> slice ?t (len a + len m + len b + 3) (len ?t - 1) = Some (butlast c)"
    using slice_tail [of c "a @ CHR 0x22 # m @ CHR 0x22 # b @ [CHR '','']"]
    by (simp add: len_def add.commute add.left_commute)
  show ?thesis
  proof (cases "c = []")
    case True
    show ?thesis unfolding getMethod_def l using True by (simp add: len_def)
  next
    case False
    then have "\<not> len a + len m + len b + 3 \<ge> len ?t" by (simp add: len_def)
    with False len_nonneg [of m] show ?thesis
      by (simp add: getMethod_def l s1 s2 del: append.simps)
  qed
qed

lemma getMethod_no_comma:
  assumes "CHR 0x22 \<notin> set a" and "CHR 0x22 \<notin> set m"
    and "CHR 0x22 \<notin> set b" and "CHR '','' \<notin> set b"
  shows "getMethod (a @ CHR 0x22 # m @ CHR 0x22 # b) =
         Some (if b = [] then ([], [], Some ErrorWrongPacket) else (m, butlast b, None))"
proof -
  let ?t = "a @ CHR 0x22 # m @ CHR 0x22 # b"
  have "getMethod_loop (a @ CHR 0x22 # m @ CHR 0x22 # b @ []) 0 (0, 0, 0, 0) =
           Inr (len a + 1, len a + len m + 1, len a + len m + 2, 2)"
    unfolding loop_two_quotes [OF assms] by simp
  then have l: "getMethod_loop ?t 0 (0, 0, 0, 0) =
           Inr (len a + 1, len a + len m + 1, len a + len m + 2, 2)"
    by simp
  have s1: "slice ?t (len a + 1) (len a + len m + 1) = Some m"
    using slice_mid [of "a @ [CHR 0x22]" m "CHR 0x22 # b"]
    by (simp add: len_def add.commute add.left_commute)
  have s2: "b \<noteq> [] \<Longrightarrow> slice ?t (len a + len m + 2) (len ?t - 1) = Some (butlast b)"
    using slice_tail [of b "a @ CHR 0x22 # m @ [CHR 0x22]"]
    by (simp add: len_def add.commute add.left_commute)
  show ?thesis
  proof (cases "b = []")
    case True
    show ?thesis unfolding getMethod_def l using True by (simp add: len_def)
  next
    case False
    then have "\<not> len a + len m + 2 \<ge> len ?t" by (simp add: len_def)
    with False len_nonneg [of m] show ?thesis
      by (simp add: getMethod_def l s1 s2 del: append.simps)
  qed
qed

subsection \<open>Decoding the wire forms that the encoder writes\<close>

lemma getNamespace_wire:
  assumes "ns = [] \<or> (hd ns = CHR ''/'' \<and> CHR '','' \<notin> set ns)"
    and "ns = [] \<Longrightarrow> t = [] \<or> hd t \<noteq> CHR ''/''"
  shows "getNamespace ((if ns = [] then [] else ns @ '','') @ t) = Some (ns, t)"
proof (cases "ns = []")
  case True
  with assms(2) show ?thesis by (auto simp: getNamespace_eq)
next
  case False
  with assms(1) have h: "hd ns = CHR ''/''" and c: "CHR '','' \<notin> set ns" by auto
  have "getNamespace (ns @ CHR '','' # t) = Some (ns, t)"
    using False h c by (simp add: getNamespace_eq takeWhile_first dropWhile_first_append)
  with False show ?thesis by simp
qed

lemma getAck_bracket_first:
  "getAck (CHR ''['' # t) = Some (0, [], Some (NumError ''Atoi'' [] ErrSyntax))"
  by (simp add: getAck_eq Atoi_def)

lemma hd_Itoa: "hd (Itoa n @ t) \<noteq> CHR ''/''"
proof -
  have "hd (Itoa n) \<in> set (Itoa n)" using Itoa_not_Nil by simp
  from Itoa_bytes [OF this] have "hd (Itoa n) \<noteq> CHR ''/''"
    by (auto simp: byte_bracket)
  then show ?thesis using Itoa_not_Nil [of n] by simp
qed

lemma Decode_Emit_wire:
  assumes "ns = [] \<or> (hd ns = CHR ''/'' \<and> CHR '','' \<notin> set ns)"
  shows "Decode (''42'' @ (if ns = [] then [] else ns @ '','') @ CHR ''['' # t) =
    (case getMethod ((if ns = [] then [] else ns @ '','') @ CHR ''['' # t) of
       None \<Rightarrow> None
     | Some (meth, arg, Some e) \<Rightarrow> Some (None, Some e)
     | Some (meth, arg, None) \<Rightarrow>
         Some (Some \<lparr>Type = MessageTypeEmit, Namespace = ns, AckId = 0, Method = meth, Args = arg,
                      Source = ''42'' @ (if ns = [] then [] else ns @ '','') @ CHR ''['' # t\<rparr>,
               None))"
proof -
  let ?r = "(if ns = [] then [] else ns @ '','') @ CHR ''['' # t"
  have n: "getNamespace ?r = Some (ns, CHR ''['' # t)"
    using assms by (intro getNamespace_wire) simp_all
  note a = getAck_bracket_first [of t]
  obtain meth arg err where g: "getMethod ?r = Some (meth, arg, err)"
    using getMethod_returns by blast
  then have g': "getMethod (if Some (NumError ''Atoi'' [] ErrSyntax) \<noteq> None then ?r else []) =
                 Some (meth, arg, err)"
    by simp
  have "Decode (CHR ''4'' # CHR ''2'' # ?r) =
     (if err \<noteq> None then Some (None, err)
      else Some (Some \<lparr>Type = MessageTypeEmit, Namespace = ns, AckId = 0, Method = meth,
                        Args = arg, Source = CHR ''4'' # CHR ''2'' # ?r\<rparr>, None))"
    using Decode_common [OF n a g'] by simp
  then show ?thesis using g by (cases err) simp_all
qed

lemma Decode_AckRequest_wire:
  assumes "ns = [] \<or> (hd ns = CHR ''/'' \<and> CHR '','' \<notin> set ns)"
    and "- (2 ^ 63) \<le> n" and "n < 2 ^ 63"
  shows "Decode (''42'' @ (if ns = [] then [] else ns @ '','') @ Itoa n @ CHR ''['' # t) =
    (case getMethod (CHR ''['' # t) of
       None \<Rightarrow> None
     | Some (meth, arg, Some e) \<Rightarrow> Some (None, Some e)
     | Some (meth, arg, None) \<Rightarrow>
         Some (Some \<lparr>Type = MessageTypeAckRequest, Namespace = ns, AckId = n, Method = meth,
                      Args = arg,
                      Source = ''42'' @ (if ns = [] then [] else ns @ '','') @ Itoa n
                               @ CHR ''['' # t\<rparr>,
               None))"
proof -
  let ?b = "Itoa n @ CHR ''['' # t"
  let ?r = "(if ns = [] then [] else ns @ '','') @ ?b"
  have n: "getNamespace ?r = Some (ns, ?b)"
    using assms(1) hd_Itoa [of n "CHR ''['' # t"] by (intro getNamespace_wire) simp_all
  note a = getAck_Itoa [OF assms(2,3), of t]
  obtain meth arg err where g: "getMethod (CHR ''['' # t) = Some (meth, arg, err)"
    using getMethod_returns by blast
  then have g': "getMethod (if (None :: error option) \<noteq> None then ?r else CHR ''['' # t) =
                 Some (meth, arg, err)"
    by simp
  have "Decode (CHR ''4'' # CHR ''2'' # ?r) =
     (if err \<noteq> None then Some (None, err)
      else Some (Some \<lparr>Type = MessageTypeAckRequest, Namespace = ns, AckId = n, Method = meth,
                        Args = arg, Source = CHR ''4'' # CHR ''2'' # ?r\<rparr>, None))"
    using Decode_common [OF n a g'] by simp
  then show ?thesis using g by (cases err) simp_all
qed

lemma Decode_AckResponse_wire:
  assumes "ns = [] \<or> (hd ns = CHR ''/'' \<and> CHR '','' \<notin> set ns)"
    and "- (2 ^ 63) \<le> n" and "n < 2 ^ 63"
  shows "Decode (''43'' @ (if ns = [] then [] else ns @ '','') @ Itoa n @ CHR ''['' # body @ [c]) =
         Some (Some \<lparr>Type = MessageTypeAckResponse, Namespace = ns, AckId = n, Method = [],
                      Args = body,
                      Source = ''43'' @ (if ns = [] then [] else ns @ '','') @ Itoa n
                               @ CHR ''['' # body @ [c]\<rparr>,
               None)"
proof -
  let ?b = "Itoa n @ CHR ''['' # body @ [c]"
  let ?r = "(if ns = [] then [] else ns @ '','') @ ?b"
  have n: "getNamespace ?r = Some (ns, ?b)"
    using assms(1) hd_Itoa [of n "CHR ''['' # body @ [c]"] by (intro getNamespace_wire) simp_all
  note a = getAck_Itoa [OF assms(2,3), of "body @ [c]"]
  show ?thesis
    using Decode_AckResponse [OF n a] by (simp add: slice_inner)
qed

lemma getNamespace_only:
  assumes "ns = [] \<or> (hd ns = CHR ''/'' \<and> CHR '','' \<notin> set ns)"
  shows "getNamespace ns = Some (ns, [])"
proof (cases "ns = []")
  case True
  then show ?thesis by (simp add: getNamespace_eq)
next
  case False
  with assms have h: "hd ns = CHR ''/''" and c: "CHR '','' \<notin> set ns" by auto
  have tw: "takeWhile (\<lambda>x. x \<noteq> CHR '','') ns = ns"
    using c by (auto simp: takeWhile_eq_all_conv)
  have dw: "dropWhile (\<lambda>x. x \<noteq> CHR '','') ns = []"
    using c by (auto simp: dropWhile_eq_Nil_conv)
  show ?thesis using False h by (simp add: getNamespace_eq tw dw)
qed

lemma getMethod_wire_body:
  assumes "CHR 0x22 \<notin> set a" and "CHR 0x22 \<notin> set m"
  shows "getMethod (a @ ''['' @ [CHR 0x22] @ m @ [CHR 0x22] @ '','' @ arg @ '']'') =
         Some (m, arg, None)"
proof -
  have q: "CHR 0x22 \<notin> set (a @ ''['')" using assms(1) by simp
  have "getMethod ((a @ ''['') @ CHR 0x22 # m @ CHR 0x22 # [] @ CHR '','' # (arg @ '']'')) =
        Some (if arg @ '']'' = [] then ([], [], Some ErrorWrongPacket)
              else (m, butlast (arg @ '']''), None))"
    using q assms(2) by (intro getMethod_comma) simp_all
  then show ?thesis by (simp add: butlast_append)
qed


subsection \<open>The encoder, by kind\<close>

lemma Encode_Open_Close:
  "Type m = MessageTypeOpen \<or> Type m = MessageTypeClose \<Longrightarrow>
   Encode m = (fst (typeToText (Type m)) @ (if Namespace m = [] then [] else Namespace m @ '','')
               @ Args m, None)"
  by (auto simp: Encode_def typeToText_def discharge_def kind_defs)

lemma Encode_no_body:
  "Type m = MessageTypePing \<or> Type m = MessageTypePong \<or> Type m = MessageTypeEmpty \<Longrightarrow>
   Encode m = (fst (typeToText (Type m)) @ Namespace m, None)"
  by (auto simp: Encode_def typeToText_def discharge_def kind_defs)

lemma Encode_Emit:
  "Type m = MessageTypeEmit \<Longrightarrow>
   Encode m = (''42'' @ (if Namespace m = [] then [] else Namespace m @ '','') @ ''[''
               @ [CHR 0x22] @ jsonString (Method m) @ [CHR 0x22] @ '','' @ Args m @ '']'', None)"
  by (simp add: Encode_def typeToText_def discharge_def kind_defs jsonMarshal_def commonMessage_def)

lemma Encode_AckRequest:
  "Type m = MessageTypeAckRequest \<Longrightarrow>
   Encode m = (''42'' @ (if Namespace m = [] then [] else Namespace m @ '','') @ Itoa (AckId m)
               @ ''['' @ [CHR 0x22] @ jsonString (Method m) @ [CHR 0x22] @ '','' @ Args m @ '']'',
               None)"
  by (simp add: Encode_def typeToText_def discharge_def kind_defs jsonMarshal_def commonMessage_def)

lemma Encode_AckResponse:
  "Type m = MessageTypeAckResponse \<Longrightarrow>
   Encode m = (''43'' @ (if Namespace m = [] then [] else Namespace m @ '','') @ Itoa (AckId m)
               @ ''['' @ Args m @ '']'', None)"
  by (simp add: Encode_def typeToText_def discharge_def kind_defs ackMessage_def)

subsection \<open>The outcomes of \<^verbatim>\<open>Decode\<close>\<close>

lemma Decode_AckResponse_panics:
  "Decode (CHR ''4'' # CHR ''3'' # r) = None \<longleftrightarrow>
     (\<exists>ns rest ack. getNamespace r = Some (ns, rest) \<and> getAck rest = Some (ack, ''['', None))"
proof -
  obtain ns rest where n: "getNamespace r = Some (ns, rest)"
    using getNamespace_returns by blast
  obtain ack rest' err where a: "getAck rest = Some (ack, rest', err)"
    using getAck_returns by blast
  show ?thesis
  proof (cases err)
    case (Some e)
    with n a show ?thesis by (simp add: Decode_AckResponse [OF n a])
  next
    case None
    with a obtain b where b: "rest' = CHR ''['' # b" using getAck_rest_bracket by blast
    from None n a show ?thesis
      unfolding Decode_AckResponse [OF n a] b
      by (cases b) (auto simp: slice_def len_def split: option.splits)
  qed
qed

lemma Decode_common_returns:
  "\<exists>m e. Decode (CHR ''4'' # CHR ''2'' # r) = Some (m, e) \<and>
     ((m \<noteq> None \<and> e = None) \<or> (m = None \<and> e = Some ErrorWrongPacket))"
proof -
  obtain ns rest where n: "getNamespace r = Some (ns, rest)"
    using getNamespace_returns by blast
  obtain ack rest' err where a: "getAck rest = Some (ack, rest', err)"
    using getAck_returns by blast
  obtain meth arg err' where g: "getMethod (if err \<noteq> None then r else rest') = Some (meth, arg, err')"
    and e: "err' = None \<or> err' = Some ErrorWrongPacket"
    using getMethod_returns by blast
  from e show ?thesis unfolding Decode_common [OF n a g] by auto
qed

lemma Decode_AckResponse_returns:
  "Decode (CHR ''4'' # CHR ''3'' # r) = None
   \<or> (\<exists>m. Decode (CHR ''4'' # CHR ''3'' # r) = Some (Some m, None))
   \<or> Decode (CHR ''4'' # CHR ''3'' # r) = Some (None, Some ErrorWrongPacket)
   \<or> (\<exists>s k. Decode (CHR ''4'' # CHR ''3'' # r) = Some (None, Some (NumError ''Atoi'' s k)))"
proof -
  obtain ns rest where n: "getNamespace r = Some (ns, rest)"
    using getNamespace_returns by blast
  obtain ack rest' err where a: "getAck rest = Some (ack, rest', err)"
    and e: "err = None \<or> err = Some ErrorWrongPacket \<or> (\<exists>s k. err = Some (NumError ''Atoi'' s k))"
    using getAck_returns by blast
  from e show ?thesis unfolding Decode_AckResponse [OF n a] by (auto split: option.splits)
qed

text \<open>
  Every outcome of \<^verbatim>\<open>Decode\<close>: a run-time panic, a message with no error, or no message with
  one of the three kinds of error. The panic is the one of the AckResponse branch: the input
  starts with \<^verbatim>\<open>43\<close>, the ack id parses, and the text from the first \<^verbatim>\<open>[\<close> on is that one
  character.
\<close>

lemma Decode_outcomes:
  "Decode data = None
   \<or> (\<exists>m. Decode data = Some (Some m, None))
   \<or> Decode data = Some (None, Some ErrorWrongMessageType)
   \<or> Decode data = Some (None, Some ErrorWrongPacket)
   \<or> (\<exists>s k. Decode data = Some (None, Some (NumError ''Atoi'' s k)))"
proof (cases data)
  case Nil
  then show ?thesis by (simp add: Decode_Nil)
next
  case (Cons c cs)
  obtain ns rest where n: "getNamespace cs = Some (ns, rest)"
    using getNamespace_returns by blast
  obtain ns' rest' where n': "getNamespace (tl cs) = Some (ns', rest')"
    using getNamespace_returns by blast
  consider "c = CHR ''0''" | "c = CHR ''1''" | "c = CHR ''2''" | "c = CHR ''3''"
    | "c = CHR ''4''" "cs = []"
    | d ds where "c = CHR ''4''" "cs = d # ds" "d = CHR ''0''"
    | d ds where "c = CHR ''4''" "cs = d # ds" "d = CHR ''2''"
    | d ds where "c = CHR ''4''" "cs = d # ds" "d = CHR ''3''"
    | d ds where "c = CHR ''4''" "cs = d # ds" "d \<notin> {CHR ''0'', CHR ''2'', CHR ''3''}"
    | "c \<notin> {CHR ''0'', CHR ''1'', CHR ''2'', CHR ''3'', CHR ''4''}"
    by (cases cs) auto
  then show ?thesis
  proof cases
    case 1 then show ?thesis by (simp add: Cons Decode_Open [OF n])
  next
    case 2 then show ?thesis by (simp add: Cons Decode_Close [OF n])
  next
    case 3 then show ?thesis by (simp add: Cons Decode_Ping [OF n])
  next
    case 4 then show ?thesis by (simp add: Cons Decode_Pong [OF n])
  next
    case 5 then show ?thesis by (simp add: Cons Decode_4)
  next
    case 6 with n' show ?thesis by (simp add: Cons Decode_Empty)
  next
    case 7 then show ?thesis using Decode_common_returns [of ds] by (auto simp: Cons)
  next
    case 8 then show ?thesis using Decode_AckResponse_returns [of ds] by (auto simp: Cons)
  next
    case 9 then show ?thesis by (simp add: Cons Decode_4_unknown)
  next
    case 10 then show ?thesis by (simp add: Cons Decode_unknown)
  qed
qed

lemma Decode_panics_iff:
  "Decode data = None \<longleftrightarrow>
     take 2 data = ackMessage
     \<and> (\<exists>ns rest ack. getNamespace (drop 2 data) = Some (ns, rest)
          \<and> getAck rest = Some (ack, ''['', None))"
proof (cases "take 2 data = ackMessage")
  case True
  then have d: "data = CHR ''4'' # CHR ''3'' # drop 2 data" by (rule take2_ack)
  show ?thesis using Decode_AckResponse_panics [of "drop 2 data"] True d by simp
next
  case False
  have "Decode data \<noteq> None"
  proof (cases data)
    case Nil
    then show ?thesis by (simp add: Decode_Nil)
  next
    case (Cons c cs)
    obtain ns rest where n: "getNamespace cs = Some (ns, rest)"
      using getNamespace_returns by blast
    obtain ns' rest' where n': "getNamespace (tl cs) = Some (ns', rest')"
      using getNamespace_returns by blast
    consider "c = CHR ''0''" | "c = CHR ''1''" | "c = CHR ''2''" | "c = CHR ''3''"
      | "c = CHR ''4''" "cs = []"
      | d ds where "c = CHR ''4''" "cs = d # ds" "d = CHR ''0''"
      | d ds where "c = CHR ''4''" "cs = d # ds" "d = CHR ''2''"
      | d ds where "c = CHR ''4''" "cs = d # ds" "d = CHR ''3''"
      | d ds where "c = CHR ''4''" "cs = d # ds" "d \<notin> {CHR ''0'', CHR ''2'', CHR ''3''}"
      | "c \<notin> {CHR ''0'', CHR ''1'', CHR ''2'', CHR ''3'', CHR ''4''}"
      by (cases cs) auto
    then show ?thesis
    proof cases
      case 1 then show ?thesis by (simp add: Cons Decode_Open [OF n])
    next
      case 2 then show ?thesis by (simp add: Cons Decode_Close [OF n])
    next
      case 3 then show ?thesis by (simp add: Cons Decode_Ping [OF n])
    next
      case 4 then show ?thesis by (simp add: Cons Decode_Pong [OF n])
    next
      case 5 then show ?thesis by (simp add: Cons Decode_4)
    next
      case 6 with n' show ?thesis by (simp add: Cons Decode_Empty)
    next
      case 7 then show ?thesis using Decode_common_returns [of ds] by (auto simp: Cons)
    next
      case 8 with False Cons show ?thesis by (simp add: ackMessage_def)
    next
      case 9 then show ?thesis by (simp add: Cons Decode_4_unknown)
    next
      case 10 then show ?thesis by (simp add: Cons Decode_unknown)
    qed
  qed
  with False show ?thesis by simp
qed

subsection \<open>What \<^verbatim>\<open>Atoi\<close> rejects, and \<^verbatim>\<open>Decode\<close> of the classes \<^verbatim>\<open>42\<close> and \<^verbatim>\<open>43\<close> on the text\<close>

lemma parseDigits_no_digit:
  "c \<in> set xs \<Longrightarrow> byte c < 48 \<or> 57 < byte c \<Longrightarrow> \<exists>e. parseDigits a xs = Inl e"
  by (induction xs arbitrary: a) auto

lemma Atoi_Nil: "snd (Atoi []) \<noteq> None"
  by (simp add: Atoi_def)

lemma Atoi_no_digit:
  assumes "c \<in> set s" and "byte c < 48 \<or> 57 < byte c"
    and "c \<noteq> CHR ''+''" and "c \<noteq> CHR ''-''"
  shows "snd (Atoi s) \<noteq> None"
proof -
  let ?s1 = "if hd s = CHR ''+'' \<or> hd s = CHR ''-'' then tl s else s"
  from assms(1) have ne: "s \<noteq> []" by auto
  have "c \<in> set ?s1"
    using assms(1,3,4) ne by (cases s) auto
  from parseDigits_no_digit [OF this assms(2)] obtain e where e: "parseDigits 0 ?s1 = Inl e"
    by blast
  then have "?s1 \<noteq> [] \<Longrightarrow> ParseUint ?s1 = Inl e" by (simp add: ParseUint_def)
  then have "\<exists>e. ParseUint ?s1 = Inl e" by (cases "?s1 = []") (auto simp: ParseUint_def)
  then obtain e' where "ParseUint ?s1 = Inl e'" by blast
  then show ?thesis using ne
    by (cases e') (simp_all add: Atoi_def Let_def)
qed

lemma Decode_common_on_text:
  assumes ns: "ns = (if r \<noteq> [] \<and> hd r = CHR ''/'' then takeWhile (\<lambda>x. x \<noteq> CHR '','') r else [])"
    and rest: "rest = (if r \<noteq> [] \<and> hd r = CHR ''/''
                       then tl (dropWhile (\<lambda>x. x \<noteq> CHR '','') r) else r)"
  shows "Decode (CHR ''4'' # CHR ''2'' # r) =
    (if CHR ''['' \<in> set rest \<and> snd (Atoi (takeWhile (\<lambda>x. x \<noteq> CHR ''['') rest)) = None
     then (case getMethod (dropWhile (\<lambda>x. x \<noteq> CHR ''['') rest) of
             None \<Rightarrow> None
           | Some (meth, arg, Some e) \<Rightarrow> Some (None, Some e)
           | Some (meth, arg, None) \<Rightarrow>
               Some (Some \<lparr>Type = MessageTypeAckRequest, Namespace = ns,
                            AckId = fst (Atoi (takeWhile (\<lambda>x. x \<noteq> CHR ''['') rest)),
                            Method = meth, Args = arg, Source = CHR ''4'' # CHR ''2'' # r\<rparr>, None))
     else (case getMethod r of
             None \<Rightarrow> None
           | Some (meth, arg, Some e) \<Rightarrow> Some (None, Some e)
           | Some (meth, arg, None) \<Rightarrow>
               Some (Some \<lparr>Type = MessageTypeEmit, Namespace = ns, AckId = 0,
                            Method = meth, Args = arg, Source = CHR ''4'' # CHR ''2'' # r\<rparr>, None)))"
proof -
  let ?pre = "takeWhile (\<lambda>x. x \<noteq> CHR ''['') rest"
  let ?body = "dropWhile (\<lambda>x. x \<noteq> CHR ''['') rest"
  have n: "getNamespace r = Some (ns, rest)"
    unfolding ns rest by (simp add: getNamespace_eq)
  obtain ack rest' err where a: "getAck rest = Some (ack, rest', err)"
    using getAck_returns by blast
  obtain meth arg err' where g: "getMethod (if err \<noteq> None then r else rest') = Some (meth, arg, err')"
    using getMethod_returns by blast
  note D = Decode_common [OF n a g]
  show ?thesis
  proof (cases "CHR ''['' \<in> set rest \<and> snd (Atoi ?pre) = None")
    case True
    with a have "err = None" "rest' = ?body" "ack = fst (Atoi ?pre)"
      by (auto simp: getAck_eq split: prod.splits option.splits)
    with True g show ?thesis unfolding D by (cases err') simp_all
  next
    case False
    with a have "err \<noteq> None" "ack = 0"
      by (auto simp: getAck_eq split: prod.splits option.splits if_splits)
    with False g show ?thesis unfolding D by (cases err') auto
  qed
qed

lemma Decode_AckResponse_on_text:
  assumes ns: "ns = (if r \<noteq> [] \<and> hd r = CHR ''/'' then takeWhile (\<lambda>x. x \<noteq> CHR '','') r else [])"
    and rest: "rest = (if r \<noteq> [] \<and> hd r = CHR ''/''
                       then tl (dropWhile (\<lambda>x. x \<noteq> CHR '','') r) else r)"
  shows "Decode (CHR ''4'' # CHR ''3'' # r) =
    (if CHR ''['' \<notin> set rest then Some (None, Some ErrorWrongPacket)
     else case snd (Atoi (takeWhile (\<lambda>x. x \<noteq> CHR ''['') rest)) of
            Some e \<Rightarrow> Some (None, Some e)
          | None \<Rightarrow>
              (case slice (dropWhile (\<lambda>x. x \<noteq> CHR ''['') rest) 1
                      (len (dropWhile (\<lambda>x. x \<noteq> CHR ''['') rest) - 1) of
                 None \<Rightarrow> None
               | Some arg \<Rightarrow>
                   Some (Some \<lparr>Type = MessageTypeAckResponse, Namespace = ns,
                                AckId = fst (Atoi (takeWhile (\<lambda>x. x \<noteq> CHR ''['') rest)),
                                Method = [], Args = arg,
                                Source = CHR ''4'' # CHR ''3'' # r\<rparr>, None)))"
proof -
  let ?pre = "takeWhile (\<lambda>x. x \<noteq> CHR ''['') rest"
  let ?body = "dropWhile (\<lambda>x. x \<noteq> CHR ''['') rest"
  have n: "getNamespace r = Some (ns, rest)"
    unfolding ns rest by (simp add: getNamespace_eq)
  obtain ack rest' err where a: "getAck rest = Some (ack, rest', err)"
    using getAck_returns by blast
  note D = Decode_AckResponse [OF n a]
  show ?thesis
  proof (cases "CHR ''['' \<in> set rest")
    case False
    with a have "err = Some ErrorWrongPacket" by (simp add: getAck_eq)
    with False show ?thesis unfolding D by simp
  next
    case True
    show ?thesis
    proof (cases "snd (Atoi ?pre)")
      case None
      with True a have "err = None" "rest' = ?body" "ack = fst (Atoi ?pre)"
        by (auto simp: getAck_eq split: prod.splits option.splits)
      with True None show ?thesis unfolding D by (simp split: option.splits)
    next
      case (Some e)
      with True a have "err = Some e"
        by (auto simp: getAck_eq split: prod.splits option.splits)
      with True Some show ?thesis unfolding D by simp
    qed
  qed
qed

section \<open>The properties of the specification\<close>

text \<open>
  C1. The specification says that \<^verbatim>\<open>Decode\<close> returns a message or fails with one of three errors,
  and never aborts at run time; it names the input \<^verbatim>\<open>431[\<close>. On that input the ack id 1
  parses, the remaining text is \<^verbatim>\<open>[\<close>, and the slice \<^verbatim>\<open>rest[1 : len(rest)-1]\<close> is
  \<^verbatim>\<open>rest[1:0]\<close>: the code panics. By \<open>Decode_panics_iff\<close> this is the only way in which
  \<^verbatim>\<open>Decode\<close> panics, and by \<open>Decode_outcomes\<close> every other outcome is a message without
  error or one of the three errors without message.
\<close>

theorem Decode_truncated_AckResponse_panics: "Decode ''431['' = None"
  by code_simp

text \<open>
  C2, as the code has it. The specification asks of the message only that its arguments have the wire
  shape of its kind and that its other fields are those of its kind. The encoder writes the
  method as a JSON string, with escapes, and the decoder reads the text between the first two
  quotes as it stands: an Emit whose method holds a quote is encoded as \<^verbatim>\<open>42["a\"b",[1]]\<close>, and
  decoding that fails with \<^verbatim>\<open>ErrorWrongPacket\<close>, at the third quote.
\<close>

theorem Decode_Encode_quoted_method:
  \<open>Decode (fst (Encode \<lparr>Type = MessageTypeEmit, Namespace = [], AckId = 0, Method = ''a"b'',
                          Args = ''[1]'', Source = []\<rparr>))
     = Some (None, Some ErrorWrongPacket)\<close>
  by code_simp

text \<open>
  C2, amended. \<^verbatim>\<open>Decode\<close> of what \<^verbatim>\<open>Encode\<close> returns succeeds and gives the message back (with
  \<^verbatim>\<open>Source\<close> set to the wire text) for every message
  \<^item> of one of the eight kinds,
  \<^item> whose namespace is empty, or starts with \<^verbatim>\<open>/\<close> and holds no comma (and, for an Emit, no
    quote),
  \<^item> whose ack id is in the range of \<^verbatim>\<open>int\<close> for AckRequest and AckResponse and 0 for every
    other kind,
  \<^item> whose method, for Emit and AckRequest, holds no quote and is left as it is by the JSON
    string encoding, and is empty for every other kind,
  \<^item> whose arguments are empty for Close, Ping, Pong and Empty and, for an Open without
    namespace, do not start with \<^verbatim>\<open>/\<close>.

  The arguments of Emit, AckRequest and AckResponse are any text.
\<close>

theorem Decode_Encode_roundtrip:
  assumes kind: "Type m \<in> {MessageTypeOpen, MessageTypeClose, MessageTypePing, MessageTypePong,
        MessageTypeEmpty, MessageTypeEmit, MessageTypeAckRequest, MessageTypeAckResponse}"
    and ns: "Namespace m = [] \<or> (hd (Namespace m) = CHR ''/'' \<and> CHR '','' \<notin> set (Namespace m))"
    and ack: "if Type m = MessageTypeAckRequest \<or> Type m = MessageTypeAckResponse
              then - (2 ^ 63) \<le> AckId m \<and> AckId m < 2 ^ 63 else AckId m = 0"
    and meth: "if Type m = MessageTypeEmit \<or> Type m = MessageTypeAckRequest
               then jsonString (Method m) = Method m \<and> CHR 0x22 \<notin> set (Method m)
               else Method m = []"
    and emit_ns: "Type m = MessageTypeEmit \<longrightarrow> CHR 0x22 \<notin> set (Namespace m)"
    and no_args: "Type m = MessageTypeClose \<or> Type m = MessageTypePing \<or> Type m = MessageTypePong
                  \<or> Type m = MessageTypeEmpty \<longrightarrow> Args m = []"
    and open_args: "Type m = MessageTypeOpen \<and> Namespace m = [] \<longrightarrow>
                    Args m = [] \<or> hd (Args m) \<noteq> CHR ''/''"
  shows "snd (Encode m) = None
         \<and> Decode (fst (Encode m)) = Some (Some (m\<lparr>Source := fst (Encode m)\<rparr>), None)"
proof -
  let ?ns = "Namespace m"
  let ?sep = "if ?ns = [] then [] else ?ns @ '',''"
  consider (Open) "Type m = MessageTypeOpen" | (Close) "Type m = MessageTypeClose"
    | (Ping) "Type m = MessageTypePing" | (Pong) "Type m = MessageTypePong"
    | (Empty) "Type m = MessageTypeEmpty" | (Emit) "Type m = MessageTypeEmit"
    | (AckRequest) "Type m = MessageTypeAckRequest" | (AckResponse) "Type m = MessageTypeAckResponse"
    using kind by auto
  then show ?thesis
  proof cases
    case Open
    then have z: "AckId m = 0" "Method m = []" using ack meth by (simp_all add: kind_defs)
    have n: "getNamespace (?sep @ Args m) = Some (?ns, Args m)"
      using ns open_args Open by (intro getNamespace_wire) auto
    have e: "Encode m = (CHR ''0'' # ?sep @ Args m, None)"
      using Open by (simp add: Encode_Open_Close typeToText_def open_def)
    show ?thesis unfolding e using Decode_Open [OF n] Open z by simp
  next
    case Close
    then have z: "AckId m = 0" "Method m = []" "Args m = []"
      using ack meth no_args by (simp_all add: kind_defs)
    have n: "getNamespace (?sep @ []) = Some (?ns, [])"
      using ns by (intro getNamespace_wire) auto
    have e: "Encode m = (CHR ''1'' # ?sep @ [], None)"
      using Close z by (simp add: Encode_Open_Close typeToText_def CloseMessage_def kind_defs)
    show ?thesis unfolding e using Decode_Close [OF n] Close z by simp
  next
    case Ping
    then have z: "AckId m = 0" "Method m = []" "Args m = []"
      using ack meth no_args by (simp_all add: kind_defs)
    note n = getNamespace_only [OF ns]
    have e: "Encode m = (CHR ''2'' # ?ns, None)"
      using Ping by (simp add: Encode_no_body typeToText_def PingMessage_def kind_defs)
    show ?thesis unfolding e using Decode_Ping [OF n] Ping z by simp
  next
    case Pong
    then have z: "AckId m = 0" "Method m = []" "Args m = []"
      using ack meth no_args by (simp_all add: kind_defs)
    note n = getNamespace_only [OF ns]
    have e: "Encode m = (CHR ''3'' # ?ns, None)"
      using Pong by (simp add: Encode_no_body typeToText_def PongMessage_def kind_defs)
    show ?thesis unfolding e using Decode_Pong [OF n] Pong z by simp
  next
    case Empty
    then have z: "AckId m = 0" "Method m = []" "Args m = []"
      using ack meth no_args by (simp_all add: kind_defs)
    note n = getNamespace_only [OF ns]
    have e: "Encode m = (CHR ''4'' # CHR ''0'' # ?ns, None)"
      using Empty by (simp add: Encode_no_body typeToText_def emptyMessage_def kind_defs)
    show ?thesis unfolding e using Decode_Empty [OF n] Empty z by simp
  next
    case Emit
    then have z: "AckId m = 0" "jsonString (Method m) = Method m" "CHR 0x22 \<notin> set (Method m)"
      using ack meth by (simp_all add: kind_defs)
    have q: "CHR 0x22 \<notin> set ?sep" using emit_ns Emit by simp
    let ?t = "[CHR 0x22] @ Method m @ [CHR 0x22] @ '','' @ Args m @ '']''"
    have e: "Encode m = (''42'' @ ?sep @ CHR ''['' # ?t, None)"
      using Emit z by (simp add: Encode_Emit)
    have g: "getMethod (?sep @ CHR ''['' # ?t) = Some (Method m, Args m, None)"
      using getMethod_wire_body [OF q z(3), of "Args m"] by simp
    show ?thesis unfolding e using Decode_Emit_wire [OF ns, of ?t] Emit z
      by (simp add: g del: append.simps)
  next
    case AckRequest
    then have z: "- (2 ^ 63) \<le> AckId m" "AckId m < 2 ^ 63"
      "jsonString (Method m) = Method m" "CHR 0x22 \<notin> set (Method m)"
      using ack meth by (simp_all add: kind_defs)
    let ?t = "[CHR 0x22] @ Method m @ [CHR 0x22] @ '','' @ Args m @ '']''"
    have e: "Encode m = (''42'' @ ?sep @ Itoa (AckId m) @ CHR ''['' # ?t, None)"
      using AckRequest z by (simp add: Encode_AckRequest)
    have g: "getMethod (CHR ''['' # ?t) = Some (Method m, Args m, None)"
      using getMethod_wire_body [of "[]" "Method m" "Args m"] z(4) by simp
    show ?thesis unfolding e using Decode_AckRequest_wire [OF ns z(1,2), of ?t] AckRequest
      by (simp add: g del: append.simps)
  next
    case AckResponse
    then have z: "- (2 ^ 63) \<le> AckId m" "AckId m < 2 ^ 63" "Method m = []"
      using ack meth by (simp_all add: kind_defs)
    have e: "Encode m = (''43'' @ ?sep @ Itoa (AckId m) @ CHR ''['' # Args m @ [CHR '']''], None)"
      using AckResponse by (simp add: Encode_AckResponse)
    show ?thesis unfolding e
      using Decode_AckResponse_wire [OF ns z(1,2), of "Args m" "CHR '']''"] AckResponse z
      by (simp del: append.simps)
  qed
qed

theorem Decode_Encode_roundtrip_witness:
  \<open>jsonString ''foo'' = ''foo'' \<and> CHR 0x22 \<notin> set ''foo''
   \<and> hd ''/chat'' = CHR ''/'' \<and> CHR '','' \<notin> set ''/chat''
   \<and> Encode \<lparr>Type = MessageTypeAckRequest, Namespace = ''/chat'', AckId = 12, Method = ''foo'',
              Args = ''[1,2]'', Source = []\<rparr> = (''42/chat,12["foo",[1,2]]'', None)
   \<and> Decode ''42/chat,12["foo",[1,2]]'' =
       Some (Some \<lparr>Type = MessageTypeAckRequest, Namespace = ''/chat'', AckId = 12, Method = ''foo'',
                    Args = ''[1,2]'', Source = ''42/chat,12["foo",[1,2]]''\<rparr>, None)
   \<and> Encode \<lparr>Type = MessageTypeEmit, Namespace = ''/chat'', AckId = 0, Method = ''foo'',
              Args = ''[1,2]'', Source = []\<rparr> = (''42/chat,["foo",[1,2]]'', None)
   \<and> Decode ''42/chat,["foo",[1,2]]'' =
       Some (Some \<lparr>Type = MessageTypeEmit, Namespace = ''/chat'', AckId = 0, Method = ''foo'',
                    Args = ''[1,2]'', Source = ''42/chat,["foo",[1,2]]''\<rparr>, None)\<close>
proof -
  let ?A = "\<lparr>Type = MessageTypeAckRequest, Namespace = ''/chat'', AckId = 12, Method = ''foo'',
              Args = ''[1,2]'', Source = []\<rparr>"
  let ?E = "\<lparr>Type = MessageTypeEmit, Namespace = ''/chat'', AckId = 0, Method = ''foo'',
              Args = ''[1,2]'', Source = []\<rparr>"
  have j: "jsonString ''foo'' = ''foo''"
    by (rule jsonString_safe) (simp add: htmlSafe_def byte_def)
  have a: \<open>Encode ?A = (''42/chat,12["foo",[1,2]]'', None)\<close> by code_simp
  have e: \<open>Encode ?E = (''42/chat,["foo",[1,2]]'', None)\<close> by code_simp
  have ra: "snd (Encode ?A) = None
            \<and> Decode (fst (Encode ?A)) = Some (Some (?A\<lparr>Source := fst (Encode ?A)\<rparr>), None)"
    by (rule Decode_Encode_roundtrip) (simp_all add: kind_defs j del: jsonString.simps)
  have re: "snd (Encode ?E) = None
            \<and> Decode (fst (Encode ?E)) = Some (Some (?E\<lparr>Source := fst (Encode ?E)\<rparr>), None)"
    by (rule Decode_Encode_roundtrip) (simp_all add: kind_defs j del: jsonString.simps)
  have da: \<open>Decode ''42/chat,12["foo",[1,2]]'' =
       Some (Some \<lparr>Type = MessageTypeAckRequest, Namespace = ''/chat'', AckId = 12, Method = ''foo'',
                    Args = ''[1,2]'', Source = ''42/chat,12["foo",[1,2]]''\<rparr>, None)\<close>
    using ra unfolding a by simp
  have de: \<open>Decode ''42/chat,["foo",[1,2]]'' =
       Some (Some \<lparr>Type = MessageTypeEmit, Namespace = ''/chat'', AckId = 0, Method = ''foo'',
                    Args = ''[1,2]'', Source = ''42/chat,["foo",[1,2]]''\<rparr>, None)\<close>
    using re unfolding e by simp
  have q: "CHR 0x22 \<notin> set ''foo''" "hd ''/chat'' = CHR ''/''" "CHR '','' \<notin> set ''/chat''"
    by simp_all
  show ?thesis by (intro conjI j q a da e de)
qed

text \<open>
  C3, as the code has it. The specification says that every deviation from the form
  \<^verbatim>\<open>["method",args]\<close> fails with \<^verbatim>\<open>ErrorWrongPacket\<close>, a missing comma after the closing quote
  among them. After the closing quote \<^verbatim>\<open>getMethod\<close> sets \<^verbatim>\<open>rest\<close> to the next position, so that
  an event without arguments is read: the body \<^verbatim>\<open>["foo"]\<close> has no comma and is decoded, with
  method \<^verbatim>\<open>foo\<close> and empty arguments.
\<close>

theorem Decode_accepts_missing_comma:
  \<open>Decode ''42["foo"]'' =
     Some (Some \<lparr>Type = MessageTypeEmit, Namespace = [], AckId = 0, Method = ''foo'', Args = [],
                  Source = ''42["foo"]''\<rparr>, None)\<close>
  by code_simp

text \<open>
  C3, amended. What \<^verbatim>\<open>getMethod\<close> does with a body that holds a quote (\<open>a\<close>, \<open>m\<close> hold no
  quote, \<open>b\<close> holds neither a quote nor a comma):
  \<^item> exactly one quote: \<^verbatim>\<open>ErrorWrongPacket\<close>;
  \<^item> a third quote before the separating comma: \<^verbatim>\<open>ErrorWrongPacket\<close>;
  \<^item> two quotes, then \<open>b\<close>, then a comma: the method is the text between the quotes, the
    arguments are the text after the comma without its last character; when nothing follows
    the comma, \<^verbatim>\<open>ErrorWrongPacket\<close>. The text \<open>b\<close> between the closing quote and the comma is
    skipped, so a comma that does not follow the closing quote at once is no error;
  \<^item> two quotes, then \<open>b\<close> and the end of the body: when \<open>b\<close> is empty, \<^verbatim>\<open>ErrorWrongPacket\<close>;
    otherwise the arguments are \<open>b\<close> without its last character, so a missing comma is no
    error.

  The result of \<^verbatim>\<open>getMethod\<close> is the result of \<^verbatim>\<open>Decode\<close>: on \<^verbatim>\<open>42\<close> and a body that starts with
  \<^verbatim>\<open>[\<close> (an Emit), and on \<^verbatim>\<open>42\<close>, an ack id and such a body (an AckRequest). Nothing is said
  here of a body without any quote.
\<close>

theorem getMethod_body_cases:
  "(CHR 0x22 \<notin> set a \<and> CHR 0x22 \<notin> set m \<longrightarrow>
      getMethod (a @ CHR 0x22 # m) = Some ([], [], Some ErrorWrongPacket))
   \<and> (CHR 0x22 \<notin> set a \<and> CHR 0x22 \<notin> set m \<and> CHR 0x22 \<notin> set b \<and> CHR '','' \<notin> set b \<longrightarrow>
      getMethod (a @ CHR 0x22 # m @ CHR 0x22 # b @ CHR 0x22 # c) =
        Some ([], [], Some ErrorWrongPacket)
      \<and> getMethod (a @ CHR 0x22 # m @ CHR 0x22 # b @ CHR '','' # c) =
        Some (if c = [] then ([], [], Some ErrorWrongPacket) else (m, butlast c, None))
      \<and> getMethod (a @ CHR 0x22 # m @ CHR 0x22 # b) =
        Some (if b = [] then ([], [], Some ErrorWrongPacket) else (m, butlast b, None)))
   \<and> Decode (''42'' @ CHR ''['' # t) =
       (case getMethod (CHR ''['' # t) of
          None \<Rightarrow> None
        | Some (meth, arg, Some e) \<Rightarrow> Some (None, Some e)
        | Some (meth, arg, None) \<Rightarrow>
            Some (Some \<lparr>Type = MessageTypeEmit, Namespace = [], AckId = 0, Method = meth,
                         Args = arg, Source = ''42'' @ CHR ''['' # t\<rparr>, None))
   \<and> (- (2 ^ 63) \<le> n \<and> n < 2 ^ 63 \<longrightarrow>
       Decode (''42'' @ Itoa n @ CHR ''['' # t) =
       (case getMethod (CHR ''['' # t) of
          None \<Rightarrow> None
        | Some (meth, arg, Some e) \<Rightarrow> Some (None, Some e)
        | Some (meth, arg, None) \<Rightarrow>
            Some (Some \<lparr>Type = MessageTypeAckRequest, Namespace = [], AckId = n, Method = meth,
                         Args = arg, Source = ''42'' @ Itoa n @ CHR ''['' # t\<rparr>, None)))"
proof (intro conjI impI)
  assume "CHR 0x22 \<notin> set a \<and> CHR 0x22 \<notin> set m"
  then show "getMethod (a @ CHR 0x22 # m) = Some ([], [], Some ErrorWrongPacket)"
    by (simp add: getMethod_one_quote)
next
  assume "CHR 0x22 \<notin> set a \<and> CHR 0x22 \<notin> set m \<and> CHR 0x22 \<notin> set b \<and> CHR '','' \<notin> set b"
  then show "getMethod (a @ CHR 0x22 # m @ CHR 0x22 # b @ CHR 0x22 # c) =
        Some ([], [], Some ErrorWrongPacket)"
    by (simp add: getMethod_third_quote)
next
  assume "CHR 0x22 \<notin> set a \<and> CHR 0x22 \<notin> set m \<and> CHR 0x22 \<notin> set b \<and> CHR '','' \<notin> set b"
  then show "getMethod (a @ CHR 0x22 # m @ CHR 0x22 # b @ CHR '','' # c) =
        Some (if c = [] then ([], [], Some ErrorWrongPacket) else (m, butlast c, None))"
    by (intro getMethod_comma) simp_all
next
  assume "CHR 0x22 \<notin> set a \<and> CHR 0x22 \<notin> set m \<and> CHR 0x22 \<notin> set b \<and> CHR '','' \<notin> set b"
  then show "getMethod (a @ CHR 0x22 # m @ CHR 0x22 # b) =
        Some (if b = [] then ([], [], Some ErrorWrongPacket) else (m, butlast b, None))"
    by (intro getMethod_no_comma) simp_all
next
  show "Decode (''42'' @ CHR ''['' # t) =
       (case getMethod (CHR ''['' # t) of
          None \<Rightarrow> None
        | Some (meth, arg, Some e) \<Rightarrow> Some (None, Some e)
        | Some (meth, arg, None) \<Rightarrow>
            Some (Some \<lparr>Type = MessageTypeEmit, Namespace = [], AckId = 0, Method = meth,
                         Args = arg, Source = ''42'' @ CHR ''['' # t\<rparr>, None))"
    using Decode_Emit_wire [of "[]" t] by (auto split: option.splits)
next
  assume "- (2 ^ 63) \<le> n \<and> n < 2 ^ 63"
  then show "Decode (''42'' @ Itoa n @ CHR ''['' # t) =
       (case getMethod (CHR ''['' # t) of
          None \<Rightarrow> None
        | Some (meth, arg, Some e) \<Rightarrow> Some (None, Some e)
        | Some (meth, arg, None) \<Rightarrow>
            Some (Some \<lparr>Type = MessageTypeAckRequest, Namespace = [], AckId = n, Method = meth,
                         Args = arg, Source = ''42'' @ Itoa n @ CHR ''['' # t\<rparr>, None))"
    using Decode_AckRequest_wire [of "[]" n t] by (auto split: option.splits)
qed

theorem getMethod_body_cases_witness:
  \<open>getMethod ''["foo",[1,2]]'' = Some (''foo'', ''[1,2]'', None)
   \<and> getMethod ''["foo" ,1]'' = Some (''foo'', ''1'', None)
   \<and> getMethod ''["foo"]'' = Some (''foo'', [], None)
   \<and> getMethod ''["a"b",1]'' = Some ([], [], Some ErrorWrongPacket)
   \<and> getMethod ''["foo",'' = Some ([], [], Some ErrorWrongPacket)
   \<and> getMethod ''["foo"'' = Some ([], [], Some ErrorWrongPacket)
   \<and> getMethod ''["foo'' = Some ([], [], Some ErrorWrongPacket)
   \<and> Decode ''42["a"b",1]'' = Some (None, Some ErrorWrongPacket)
   \<and> Decode ''427["foo",[1,2]]'' =
       Some (Some \<lparr>Type = MessageTypeAckRequest, Namespace = [], AckId = 7, Method = ''foo'',
                    Args = ''[1,2]'', Source = ''427["foo",[1,2]]''\<rparr>, None)\<close>
proof -
  note T = getMethod_body_cases
  have i: "Itoa 7 = ''7''" by code_simp
  have 1: \<open>getMethod ''["foo",[1,2]]'' = Some (''foo'', ''[1,2]'', None)\<close>
    using T [where t = "[]" and a = "''[''" and m = "''foo''" and b = "[]" and c = "''[1,2]]''" and n = 0]
    by simp
  have 2: \<open>getMethod ''["foo" ,1]'' = Some (''foo'', ''1'', None)\<close>
    using T [where t = "[]" and a = "''[''" and m = "''foo''" and b = "'' ''" and c = "''1]''" and n = 0]
    by simp
  have 3: \<open>getMethod ''["foo"]'' = Some (''foo'', [], None)\<close>
    using T [where t = "[]" and a = "''[''" and m = "''foo''" and b = "'']''" and c = "[]" and n = 0]
    by simp
  have 4: \<open>getMethod ''["a"b",1]'' = Some ([], [], Some ErrorWrongPacket)\<close>
    using T [where t = "[]" and a = "''[''" and m = "''a''" and b = "''b''" and c = "'',1]''" and n = 0]
    by simp
  have 5: \<open>getMethod ''["foo",'' = Some ([], [], Some ErrorWrongPacket)\<close>
    using T [where t = "[]" and a = "''[''" and m = "''foo''" and b = "[]" and c = "[]" and n = 0]
    by simp
  have 6: \<open>getMethod ''["foo"'' = Some ([], [], Some ErrorWrongPacket)\<close>
    using T [where t = "[]" and a = "''[''" and m = "''foo''" and b = "[]" and c = "[]" and n = 0]
    by simp
  have 7: \<open>getMethod ''["foo'' = Some ([], [], Some ErrorWrongPacket)\<close>
    using T [where t = "[]" and a = "''[''" and m = "''foo''" and b = "[]" and c = "[]" and n = 0]
    by simp
  have 8: \<open>Decode ''42["a"b",1]'' = Some (None, Some ErrorWrongPacket)\<close>
    using T [where t = \<open>''"a"b",1]''\<close> and a = "''[''" and m = "''a''" and b = "''b''"
        and c = "'',1]''" and n = 0]
    by (simp add: 4)
  have 9: \<open>Decode ''427["foo",[1,2]]'' =
       Some (Some \<lparr>Type = MessageTypeAckRequest, Namespace = [], AckId = 7, Method = ''foo'',
                    Args = ''[1,2]'', Source = ''427["foo",[1,2]]''\<rparr>, None)\<close>
    using T [where t = \<open>''"foo",[1,2]]''\<close> and a = "''[''" and m = "''foo''" and b = "[]"
        and c = "''[1,2]]''" and n = 7]
    by (simp add: 1 i)
  show ?thesis by (intro conjI 1 2 3 4 5 6 7 8 9)
qed

text \<open>
  C4, as the code has it. The specification says that a negative number in the place of the ack id is
  not accepted. \<^verbatim>\<open>getAck\<close> hands the text before the first \<^verbatim>\<open>[\<close> to \<^verbatim>\<open>strconv.Atoi\<close>, which reads a
  sign, and nothing in the decoder looks at the sign of the result: the input \<^verbatim>\<open>43-5["x"]\<close> is
  decoded, with ack id \<open>-5\<close>.
\<close>

theorem Decode_negative_ack_id:
  \<open>Decode ''43-5["x"]'' =
     Some (Some \<lparr>Type = MessageTypeAckResponse, Namespace = [], AckId = - 5, Method = [],
                  Args = ''"x"'', Source = ''43-5["x"]''\<rparr>, None)\<close>
  by code_simp

text \<open>
  C4, amended. \<^verbatim>\<open>getAck\<close> accepts a text exactly when the text contains a \<^verbatim>\<open>[\<close> and
  \<^verbatim>\<open>strconv.Atoi\<close> accepts what stands before the first \<^verbatim>\<open>[\<close>; the ack id is the number read
  and the remaining text starts at that \<^verbatim>\<open>[\<close>. Every number of the range of \<^verbatim>\<open>int\<close>, the
  negative ones included, is accepted when written in decimal before the \<^verbatim>\<open>[\<close>.
\<close>

theorem getAck_signed_ack_id:
  "((getAck t = Some (ack, rest, None)) =
      (CHR ''['' \<in> set t \<and> Atoi (takeWhile (\<lambda>x. x \<noteq> CHR ''['') t) = (ack, None)
       \<and> rest = dropWhile (\<lambda>x. x \<noteq> CHR ''['') t))
   \<and> (- (2 ^ 63) \<le> n \<and> n < 2 ^ 63 \<longrightarrow>
        getAck (Itoa n @ CHR ''['' # b) = Some (n, CHR ''['' # b, None))"
proof (intro conjI impI)
  show "(getAck t = Some (ack, rest, None)) =
      (CHR ''['' \<in> set t \<and> Atoi (takeWhile (\<lambda>x. x \<noteq> CHR ''['') t) = (ack, None)
       \<and> rest = dropWhile (\<lambda>x. x \<noteq> CHR ''['') t)"
    by (auto simp: getAck_eq split: prod.splits option.splits)
next
  assume "- (2 ^ 63) \<le> n \<and> n < 2 ^ 63"
  then show "getAck (Itoa n @ CHR ''['' # b) = Some (n, CHR ''['' # b, None)"
    by (simp add: getAck_Itoa)
qed

theorem getAck_signed_ack_id_witness:
  \<open>- (2 ^ 63) \<le> (- 5 :: int) \<and> (- 5 :: int) < 2 ^ 63
   \<and> Itoa (- 5) @ CHR ''['' # ''"x"]'' = ''-5["x"]''
   \<and> getAck ''-5["x"]'' = Some (- 5, ''["x"]'', None)\<close>
proof -
  have i: \<open>Itoa (- 5) @ CHR ''['' # ''"x"]'' = ''-5["x"]''\<close> by code_simp
  have r: "- (2 ^ 63) \<le> (- 5 :: int) \<and> (- 5 :: int) < 2 ^ 63" by simp
  from getAck_signed_ack_id [of "[]" 0 "[]" "- 5" \<open>''"x"]''\<close>] r
  have \<open>getAck (Itoa (- 5) @ CHR ''['' # ''"x"]'') = Some (- 5, CHR ''['' # ''"x"]'', None)\<close>
    by blast
  with i have g: \<open>getAck ''-5["x"]'' = Some (- 5, ''["x"]'', None)\<close> by simp
  from r i g show ?thesis by blast
qed

text \<open>
  C5. On an input of the \<^verbatim>\<open>42\<close> class, let \<open>rest\<close> be the text after the optional namespace.
  The ack id parses when \<open>rest\<close> holds a \<^verbatim>\<open>[\<close> and \<^verbatim>\<open>strconv.Atoi\<close> accepts the text before the
  first \<^verbatim>\<open>[\<close>. Then the message is an AckRequest with that number as ack id, and the body
  that \<^verbatim>\<open>getMethod\<close> parses is \<open>rest\<close> from its first \<^verbatim>\<open>[\<close> on. Otherwise the message is an Emit
  with ack id 0, and the body that \<^verbatim>\<open>getMethod\<close> parses is the input without its first two
  characters, the namespace included; the namespace found before is kept in the message.
  The ack id parses for every \<^verbatim>\<open>int\<close> written in decimal before the \<^verbatim>\<open>[\<close>; it does not parse
  when there is no \<^verbatim>\<open>[\<close>, when nothing stands before the first \<^verbatim>\<open>[\<close>, and when a character
  other than a digit or a sign stands there.
\<close>

theorem common_class_AckRequest_or_Emit:
  assumes "take 2 data = commonMessage"
  shows
    "(let r = drop 2 data;
          ns = (if r \<noteq> [] \<and> hd r = CHR ''/'' then takeWhile (\<lambda>x. x \<noteq> CHR '','') r else []);
          rest = (if r \<noteq> [] \<and> hd r = CHR ''/''
                  then tl (dropWhile (\<lambda>x. x \<noteq> CHR '','') r) else r);
          pre = takeWhile (\<lambda>x. x \<noteq> CHR ''['') rest;
          body = dropWhile (\<lambda>x. x \<noteq> CHR ''['') rest;
          ackParses = (CHR ''['' \<in> set rest \<and> snd (Atoi pre) = None)
      in Decode data =
           (if ackParses
            then (case getMethod body of
                    None \<Rightarrow> None
                  | Some (meth, arg, Some e) \<Rightarrow> Some (None, Some e)
                  | Some (meth, arg, None) \<Rightarrow>
                      Some (Some \<lparr>Type = MessageTypeAckRequest, Namespace = ns,
                                   AckId = fst (Atoi pre), Method = meth, Args = arg,
                                   Source = data\<rparr>, None))
            else (case getMethod r of
                    None \<Rightarrow> None
                  | Some (meth, arg, Some e) \<Rightarrow> Some (None, Some e)
                  | Some (meth, arg, None) \<Rightarrow>
                      Some (Some \<lparr>Type = MessageTypeEmit, Namespace = ns, AckId = 0,
                                   Method = meth, Args = arg, Source = data\<rparr>, None)))
         \<and> (\<forall>m. Decode data = Some (Some m, None) \<longrightarrow>
               (Type m = MessageTypeAckRequest \<longleftrightarrow> ackParses)
               \<and> (Type m = MessageTypeEmit \<longleftrightarrow> \<not> ackParses))
         \<and> (\<forall>n t. - (2 ^ 63) \<le> n \<and> n < 2 ^ 63 \<and> rest = Itoa n @ CHR ''['' # t \<longrightarrow>
               ackParses \<and> fst (Atoi pre) = n \<and> body = CHR ''['' # t)
         \<and> (CHR ''['' \<notin> set rest \<or> pre = []
              \<or> (\<exists>c \<in> set pre. (byte c < 48 \<or> 57 < byte c) \<and> c \<noteq> CHR ''+'' \<and> c \<noteq> CHR ''-'')
             \<longrightarrow> \<not> ackParses))"
proof -
  define r where "r = drop 2 data"
  define ns where "ns = (if r \<noteq> [] \<and> hd r = CHR ''/'' then takeWhile (\<lambda>x. x \<noteq> CHR '','') r else [])"
  define rest where "rest = (if r \<noteq> [] \<and> hd r = CHR ''/''
                  then tl (dropWhile (\<lambda>x. x \<noteq> CHR '','') r) else r)"
  define pre where "pre = takeWhile (\<lambda>x. x \<noteq> CHR ''['') rest"
  define body where "body = dropWhile (\<lambda>x. x \<noteq> CHR ''['') rest"
  define ackParses where "ackParses \<longleftrightarrow> CHR ''['' \<in> set rest \<and> snd (Atoi pre) = None"
  have d: "data = CHR ''4'' # CHR ''2'' # r"
    unfolding r_def using assms by (rule take2_common)
  have 1: "Decode data =
           (if ackParses
            then (case getMethod body of
                    None \<Rightarrow> None
                  | Some (meth, arg, Some e) \<Rightarrow> Some (None, Some e)
                  | Some (meth, arg, None) \<Rightarrow>
                      Some (Some \<lparr>Type = MessageTypeAckRequest, Namespace = ns,
                                   AckId = fst (Atoi pre), Method = meth, Args = arg,
                                   Source = data\<rparr>, None))
            else (case getMethod r of
                    None \<Rightarrow> None
                  | Some (meth, arg, Some e) \<Rightarrow> Some (None, Some e)
                  | Some (meth, arg, None) \<Rightarrow>
                      Some (Some \<lparr>Type = MessageTypeEmit, Namespace = ns, AckId = 0,
                                   Method = meth, Args = arg, Source = data\<rparr>, None)))"
    using Decode_common_on_text [OF ns_def rest_def]
    unfolding ackParses_def pre_def body_def d [symmetric] .
  have 2: "(Type m = MessageTypeAckRequest \<longleftrightarrow> ackParses)
           \<and> (Type m = MessageTypeEmit \<longleftrightarrow> \<not> ackParses)"
    if "Decode data = Some (Some m, None)" for m
    using that unfolding 1
    by (auto simp: kind_defs split: if_splits option.splits)
  have 3: "ackParses \<and> fst (Atoi pre) = n \<and> body = CHR ''['' # t"
    if "- (2 ^ 63) \<le> n \<and> n < 2 ^ 63 \<and> rest = Itoa n @ CHR ''['' # t" for n t
    using that unfolding ackParses_def pre_def body_def
    by (simp add: takeWhile_first dropWhile_first_append Itoa_no_bracket Atoi_Itoa)
  have 4: "\<not> ackParses"
    if "CHR ''['' \<notin> set rest \<or> pre = []
        \<or> (\<exists>c \<in> set pre. (byte c < 48 \<or> 57 < byte c) \<and> c \<noteq> CHR ''+'' \<and> c \<noteq> CHR ''-'')"
    using that Atoi_Nil Atoi_no_digit [of _ pre] unfolding ackParses_def by auto
  from 1 2 3 4 show ?thesis
    unfolding Let_def r_def [symmetric] ns_def [symmetric] rest_def [symmetric]
      pre_def [symmetric] body_def [symmetric] ackParses_def [symmetric]
    by blast
qed

theorem common_class_AckRequest_or_Emit_witness:
  \<open>take 2 ''427["foo",[1,2]]'' = commonMessage
   \<and> Decode ''427["foo",[1,2]]'' =
       Some (Some \<lparr>Type = MessageTypeAckRequest, Namespace = [], AckId = 7, Method = ''foo'',
                    Args = ''[1,2]'', Source = ''427["foo",[1,2]]''\<rparr>, None)
   \<and> take 2 ''42/chat,12["foo",[1,2]]'' = commonMessage
   \<and> Decode ''42/chat,12["foo",[1,2]]'' =
       Some (Some \<lparr>Type = MessageTypeAckRequest, Namespace = ''/chat'', AckId = 12, Method = ''foo'',
                    Args = ''[1,2]'', Source = ''42/chat,12["foo",[1,2]]''\<rparr>, None)
   \<and> take 2 ''42/chat,["foo",[1,2]]'' = commonMessage
   \<and> Decode ''42/chat,["foo",[1,2]]'' =
       Some (Some \<lparr>Type = MessageTypeEmit, Namespace = ''/chat'', AckId = 0, Method = ''foo'',
                    Args = ''[1,2]'', Source = ''42/chat,["foo",[1,2]]''\<rparr>, None)\<close>
proof -
  have a1: \<open>take 2 ''427["foo",[1,2]]'' = commonMessage\<close> by (simp add: commonMessage_def)
  have a2: \<open>take 2 ''42/chat,12["foo",[1,2]]'' = commonMessage\<close> by (simp add: commonMessage_def)
  have a3: \<open>take 2 ''42/chat,["foo",[1,2]]'' = commonMessage\<close> by (simp add: commonMessage_def)
  have n7: "Atoi ''7'' = (7, None)" by code_simp
  have n12: "Atoi ''12'' = (12, None)" by code_simp
  have n0: "snd (Atoi []) \<noteq> None" by (rule Atoi_Nil)
  have g: \<open>getMethod ''["foo",[1,2]]'' = Some (''foo'', ''[1,2]'', None)\<close> by code_simp
  have g': \<open>getMethod ''/chat,["foo",[1,2]]'' = Some (''foo'', ''[1,2]'', None)\<close> by code_simp
  have d1: \<open>Decode ''427["foo",[1,2]]'' =
       Some (Some \<lparr>Type = MessageTypeAckRequest, Namespace = [], AckId = 7, Method = ''foo'',
                    Args = ''[1,2]'', Source = ''427["foo",[1,2]]''\<rparr>, None)\<close>
    using common_class_AckRequest_or_Emit [OF a1] by (simp add: Let_def n7 g)
  have d2: \<open>Decode ''42/chat,12["foo",[1,2]]'' =
       Some (Some \<lparr>Type = MessageTypeAckRequest, Namespace = ''/chat'', AckId = 12, Method = ''foo'',
                    Args = ''[1,2]'', Source = ''42/chat,12["foo",[1,2]]''\<rparr>, None)\<close>
    using common_class_AckRequest_or_Emit [OF a2] by (simp add: Let_def n12 g)
  have d3: \<open>Decode ''42/chat,["foo",[1,2]]'' =
       Some (Some \<lparr>Type = MessageTypeEmit, Namespace = ''/chat'', AckId = 0, Method = ''foo'',
                    Args = ''[1,2]'', Source = ''42/chat,["foo",[1,2]]''\<rparr>, None)\<close>
    using common_class_AckRequest_or_Emit [OF a3] n0 by (simp add: Let_def g')
  show ?thesis by (intro conjI a1 a2 a3 d1 d2 d3)
qed

text \<open>
  C6, as the code has it. The specification says that the arguments of an AckResponse are the
  remaining text with its outermost \<^verbatim>\<open>[\<close> and \<^verbatim>\<open>]\<close> removed. The code removes the first and the
  last character of the remaining text and does not look at the last one: \<^verbatim>\<open>431[a]b\<close> is
  decoded with the arguments \<^verbatim>\<open>a]\<close>, and \<^verbatim>\<open>431[x\<close>, which holds no \<^verbatim>\<open>]\<close>, with empty arguments.
\<close>

theorem Decode_AckResponse_last_character:
  "Decode ''431[a]b'' =
     Some (Some \<lparr>Type = MessageTypeAckResponse, Namespace = [], AckId = 1, Method = [],
                  Args = ''a]'', Source = ''431[a]b''\<rparr>, None)
   \<and> Decode ''431[x'' =
     Some (Some \<lparr>Type = MessageTypeAckResponse, Namespace = [], AckId = 1, Method = [],
                  Args = [], Source = ''431[x''\<rparr>, None)"
  by code_simp

text \<open>
  C6, amended. On an input of the \<^verbatim>\<open>43\<close> class, let \<open>rest\<close> be the text after the optional
  namespace. The ack id is mandatory: \<^verbatim>\<open>Decode\<close> fails with \<^verbatim>\<open>ErrorWrongPacket\<close> when \<open>rest\<close>
  holds no \<^verbatim>\<open>[\<close>, and with the error of \<^verbatim>\<open>strconv.Atoi\<close> when that rejects the text before the
  first \<^verbatim>\<open>[\<close>, as it does when nothing stands there (\<^verbatim>\<open>43["bar"]\<close>) and when a character other
  than a digit or a sign stands there. When the ack id parses and at least one character
  follows the first \<^verbatim>\<open>[\<close>, the arguments are the text from that \<^verbatim>\<open>[\<close> on without its first and
  without its last character, whatever the last character is; so the text \<^verbatim>\<open>[\<close>\<open>b\<close>\<^verbatim>\<open>]\<close> gives
  \<open>b\<close>, for every \<^verbatim>\<open>int\<close> written in decimal before it, and \<^verbatim>\<open>431["bar"]\<close> is decoded to kind
  AckResponse, ack id 1 and arguments \<^verbatim>\<open>"bar"\<close>.
\<close>

theorem AckResponse_class_ack_id_mandatory:
  assumes "take 2 data = ackMessage"
  shows
    \<open>(let r = drop 2 data;
          ns = (if r \<noteq> [] \<and> hd r = CHR ''/'' then takeWhile (\<lambda>x. x \<noteq> CHR '','') r else []);
          rest = (if r \<noteq> [] \<and> hd r = CHR ''/''
                  then tl (dropWhile (\<lambda>x. x \<noteq> CHR '','') r) else r);
          pre = takeWhile (\<lambda>x. x \<noteq> CHR ''['') rest;
          body = dropWhile (\<lambda>x. x \<noteq> CHR ''['') rest
      in (CHR ''['' \<notin> set rest \<longrightarrow> Decode data = Some (None, Some ErrorWrongPacket))
         \<and> (\<forall>e. CHR ''['' \<in> set rest \<and> snd (Atoi pre) = Some e \<longrightarrow>
               Decode data = Some (None, Some e))
         \<and> (pre = []
              \<or> (\<exists>c \<in> set pre. (byte c < 48 \<or> 57 < byte c) \<and> c \<noteq> CHR ''+'' \<and> c \<noteq> CHR ''-'')
             \<longrightarrow> (\<exists>e. Decode data = Some (None, Some e)))
         \<and> (\<forall>b c. CHR ''['' \<in> set rest \<and> snd (Atoi pre) = None \<and> body = CHR ''['' # b @ [c] \<longrightarrow>
               Decode data =
                 Some (Some \<lparr>Type = MessageTypeAckResponse, Namespace = ns,
                              AckId = fst (Atoi pre), Method = [], Args = b, Source = data\<rparr>,
                       None))
         \<and> (\<forall>n b c. - (2 ^ 63) \<le> n \<and> n < 2 ^ 63 \<and> rest = Itoa n @ CHR ''['' # b @ [c] \<longrightarrow>
               Decode data =
                 Some (Some \<lparr>Type = MessageTypeAckResponse, Namespace = ns, AckId = n,
                              Method = [], Args = b, Source = data\<rparr>, None)))
     \<and> Decode ''43["bar"]'' = Some (None, Some (NumError ''Atoi'' [] ErrSyntax))
     \<and> Decode ''431["bar"]'' =
          Some (Some \<lparr>Type = MessageTypeAckResponse, Namespace = [], AckId = 1, Method = [],
                       Args = ''"bar"'', Source = ''431["bar"]''\<rparr>, None)\<close>
proof -
  define r where "r = drop 2 data"
  define ns where "ns = (if r \<noteq> [] \<and> hd r = CHR ''/'' then takeWhile (\<lambda>x. x \<noteq> CHR '','') r else [])"
  define rest where "rest = (if r \<noteq> [] \<and> hd r = CHR ''/''
                  then tl (dropWhile (\<lambda>x. x \<noteq> CHR '','') r) else r)"
  define pre where "pre = takeWhile (\<lambda>x. x \<noteq> CHR ''['') rest"
  define body where "body = dropWhile (\<lambda>x. x \<noteq> CHR ''['') rest"
  have d: "data = CHR ''4'' # CHR ''3'' # r"
    unfolding r_def using assms by (rule take2_ack)
  have D: "Decode data =
    (if CHR ''['' \<notin> set rest then Some (None, Some ErrorWrongPacket)
     else case snd (Atoi pre) of
            Some e \<Rightarrow> Some (None, Some e)
          | None \<Rightarrow>
              (case slice body 1 (len body - 1) of
                 None \<Rightarrow> None
               | Some arg \<Rightarrow>
                   Some (Some \<lparr>Type = MessageTypeAckResponse, Namespace = ns,
                                AckId = fst (Atoi pre), Method = [], Args = arg,
                                Source = data\<rparr>, None)))"
    using Decode_AckResponse_on_text [OF ns_def rest_def]
    unfolding pre_def body_def d [symmetric] .
  have 1: "Decode data = Some (None, Some ErrorWrongPacket)" if "CHR ''['' \<notin> set rest"
    using that unfolding D by simp
  have 2: "Decode data = Some (None, Some e)"
    if "CHR ''['' \<in> set rest \<and> snd (Atoi pre) = Some e" for e
    using that unfolding D by simp
  have 3: "\<exists>e. Decode data = Some (None, Some e)"
    if "pre = []
        \<or> (\<exists>c \<in> set pre. (byte c < 48 \<or> 57 < byte c) \<and> c \<noteq> CHR ''+'' \<and> c \<noteq> CHR ''-'')"
  proof -
    from that have "snd (Atoi pre) \<noteq> None"
      using Atoi_Nil Atoi_no_digit [of _ pre] by auto
    then show ?thesis unfolding D by auto
  qed
  have 4: "Decode data =
             Some (Some \<lparr>Type = MessageTypeAckResponse, Namespace = ns,
                          AckId = fst (Atoi pre), Method = [], Args = b, Source = data\<rparr>, None)"
    if "CHR ''['' \<in> set rest \<and> snd (Atoi pre) = None \<and> body = CHR ''['' # b @ [c]" for b c
    using that unfolding D by (simp add: slice_inner)
  have 5: "Decode data =
             Some (Some \<lparr>Type = MessageTypeAckResponse, Namespace = ns, AckId = n,
                          Method = [], Args = b, Source = data\<rparr>, None)"
    if h: "- (2 ^ 63) \<le> n \<and> n < 2 ^ 63 \<and> rest = Itoa n @ CHR ''['' # b @ [c]" for n b c
  proof -
    from h have p: "pre = Itoa n" and bd: "body = CHR ''['' # b @ [c]"
      unfolding pre_def body_def
      by (simp_all add: takeWhile_first dropWhile_first_append Itoa_no_bracket)
    from h have "Atoi pre = (n, None)" unfolding p by (simp add: Atoi_Itoa)
    moreover from h have "CHR ''['' \<in> set rest" by simp
    ultimately show ?thesis using 4 [of b c] bd by simp
  qed
  have 6: \<open>Decode ''43["bar"]'' = Some (None, Some (NumError ''Atoi'' [] ErrSyntax))\<close>
    by code_simp
  have 7: \<open>Decode ''431["bar"]'' =
          Some (Some \<lparr>Type = MessageTypeAckResponse, Namespace = [], AckId = 1, Method = [],
                       Args = ''"bar"'', Source = ''431["bar"]''\<rparr>, None)\<close>
    by code_simp
  from 1 2 3 4 5 6 7 show ?thesis
    unfolding Let_def r_def [symmetric] ns_def [symmetric] rest_def [symmetric]
      pre_def [symmetric] body_def [symmetric]
    by blast
qed

theorem AckResponse_class_ack_id_mandatory_witness:
  \<open>take 2 ''43/chat,-7[[1],"x"]'' = ackMessage
   \<and> Decode ''43/chat,-7[[1],"x"]'' =
       Some (Some \<lparr>Type = MessageTypeAckResponse, Namespace = ''/chat'', AckId = - 7, Method = [],
                    Args = ''[1],"x"'', Source = ''43/chat,-7[[1],"x"]''\<rparr>, None)
   \<and> take 2 ''43/chat,x7[1]'' = ackMessage
   \<and> Decode ''43/chat,x7[1]'' = Some (None, Some (NumError ''Atoi'' ''x7'' ErrSyntax))
   \<and> take 2 ''43/chat,7'' = ackMessage
   \<and> Decode ''43/chat,7'' = Some (None, Some ErrorWrongPacket)\<close>
proof -
  have a1: \<open>take 2 ''43/chat,-7[[1],"x"]'' = ackMessage\<close> by (simp add: ackMessage_def)
  have a2: \<open>take 2 ''43/chat,x7[1]'' = ackMessage\<close> by (simp add: ackMessage_def)
  have a3: \<open>take 2 ''43/chat,7'' = ackMessage\<close> by (simp add: ackMessage_def)
  have n: "Atoi ''-7'' = (- 7, None)" by code_simp
  have x: "Atoi ''x7'' = (0, Some (NumError ''Atoi'' ''x7'' ErrSyntax))" by code_simp
  have s: \<open>''[[1],"x"]'' = CHR ''['' # ''[1],"x"'' @ [CHR '']'']\<close> by simp
  have d1: \<open>Decode ''43/chat,-7[[1],"x"]'' =
       Some (Some \<lparr>Type = MessageTypeAckResponse, Namespace = ''/chat'', AckId = - 7, Method = [],
                    Args = ''[1],"x"'', Source = ''43/chat,-7[[1],"x"]''\<rparr>, None)\<close>
    using AckResponse_class_ack_id_mandatory [OF a1] by (simp add: Let_def n)
  have d2: \<open>Decode ''43/chat,x7[1]'' = Some (None, Some (NumError ''Atoi'' ''x7'' ErrSyntax))\<close>
    using AckResponse_class_ack_id_mandatory [OF a2] by (simp add: Let_def x)
  have d3: \<open>Decode ''43/chat,7'' = Some (None, Some ErrorWrongPacket)\<close>
    using AckResponse_class_ack_id_mandatory [OF a3] by (simp add: Let_def)
  show ?thesis by (intro conjI a1 a2 a3 d1 d2 d3)
qed

text \<open>
  C7, as the code has it. The specification says that a Close message with a namespace and empty
  arguments is encoded as \<^verbatim>\<open>1\<close> and the namespace, with no comma after it. The encoder treats
  Close as it treats Open: it writes the comma that a non-empty namespace owes and then the
  arguments, also when the arguments are empty.
\<close>

theorem Encode_Close_trailing_comma:
  "Encode \<lparr>Type = MessageTypeClose, Namespace = ''/chat'', AckId = 0, Method = [], Args = [],
           Source = []\<rparr> = (''1/chat,'', None)
   \<and> Encode \<lparr>Type = MessageTypeClose, Namespace = ''/chat'', AckId = 0, Method = [], Args = [],
           Source = []\<rparr> \<noteq> (CloseMessage @ ''/chat'', None)"
  by (simp add: Encode_def typeToText_def discharge_def kind_defs CloseMessage_def)

text \<open>
  C7, amended. Let \<open>sep\<close> be the namespace followed by a comma when the namespace is not
  empty, and empty otherwise. The encoder writes the namespace as it is given. Empty, Ping and
  Pong are the prefix and the namespace, with no comma. Open and Close are the prefix,
  \<open>sep\<close> and the arguments as they are, without brackets; the comma is there whenever the
  namespace is not empty, also before empty arguments. Emit is the prefix, \<open>sep\<close> and the
  bracketed pair of the JSON-encoded method and the arguments; AckRequest has the decimal
  ack id between \<open>sep\<close> and the bracket; AckResponse is the prefix, \<open>sep\<close>, the ack id and
  the bracketed arguments.
\<close>

theorem Encode_wire_form:
  "(let sep = (if Namespace m = [] then [] else Namespace m @ '','') in
    (Type m = MessageTypeOpen \<longrightarrow> Encode m = (''0'' @ sep @ Args m, None))
    \<and> (Type m = MessageTypeClose \<longrightarrow> Encode m = (''1'' @ sep @ Args m, None))
    \<and> (Type m = MessageTypePing \<longrightarrow> Encode m = (''2'' @ Namespace m, None))
    \<and> (Type m = MessageTypePong \<longrightarrow> Encode m = (''3'' @ Namespace m, None))
    \<and> (Type m = MessageTypeEmpty \<longrightarrow> Encode m = (''40'' @ Namespace m, None))
    \<and> (Type m = MessageTypeEmit \<longrightarrow>
          Encode m = (''42'' @ sep @ ''['' @ fst (jsonMarshal (Method m)) @ '','' @ Args m @ '']'', None))
    \<and> (Type m = MessageTypeAckRequest \<longrightarrow>
          Encode m = (''42'' @ sep @ Itoa (AckId m) @ ''['' @ fst (jsonMarshal (Method m)) @ '',''
                      @ Args m @ '']'', None))
    \<and> (Type m = MessageTypeAckResponse \<longrightarrow>
          Encode m = (''43'' @ sep @ Itoa (AckId m) @ ''['' @ Args m @ '']'', None)))"
  by (simp add: Encode_def typeToText_def discharge_def kind_defs jsonMarshal_def Let_def
      open_def CloseMessage_def PingMessage_def PongMessage_def emptyMessage_def
      commonMessage_def ackMessage_def)

theorem Encode_wire_form_witness:
  \<open>Encode \<lparr>Type = MessageTypeClose, Namespace = ''/chat'', AckId = 0, Method = [], Args = ''{}'',
           Source = []\<rparr> = (''1/chat,{}'', None)
   \<and> Encode \<lparr>Type = MessageTypePing, Namespace = ''/chat'', AckId = 0, Method = [], Args = [],
           Source = []\<rparr> = (''2/chat'', None)
   \<and> Encode \<lparr>Type = MessageTypeEmit, Namespace = [], AckId = 0, Method = ''foo'', Args = ''[1,2]'',
           Source = []\<rparr> = (''42["foo",[1,2]]'', None)
   \<and> Encode \<lparr>Type = MessageTypeAckRequest, Namespace = ''/chat'', AckId = 12, Method = ''foo'',
           Args = ''[1,2]'', Source = []\<rparr> = (''42/chat,12["foo",[1,2]]'', None)\<close>
proof -
  have j: \<open>jsonMarshal ''foo'' = (''"foo"'', None)\<close>
    by (simp add: jsonMarshal_def jsonString_safe htmlSafe_def byte_def)
  have i: "Itoa 12 = ''12''" by code_simp
  show ?thesis
    using
      Encode_wire_form [of "\<lparr>Type = MessageTypeClose, Namespace = ''/chat'', AckId = 0, Method = [],
        Args = ''{}'', Source = []\<rparr>"]
      Encode_wire_form [of "\<lparr>Type = MessageTypePing, Namespace = ''/chat'', AckId = 0, Method = [],
        Args = [], Source = []\<rparr>"]
      Encode_wire_form [of "\<lparr>Type = MessageTypeEmit, Namespace = [], AckId = 0, Method = ''foo'',
        Args = ''[1,2]'', Source = []\<rparr>"]
      Encode_wire_form [of "\<lparr>Type = MessageTypeAckRequest, Namespace = ''/chat'', AckId = 12,
        Method = ''foo'', Args = ''[1,2]'', Source = []\<rparr>"]
    by (simp add: Let_def kind_defs j i)
qed

text \<open>
  C8. For every message whose \<^verbatim>\<open>Type\<close> is none of the eight kinds, \<^verbatim>\<open>Encode\<close> returns the
  empty string together with \<^verbatim>\<open>ErrorWrongMessageType\<close>: nothing of the output is written.
\<close>

theorem Encode_unrecognized_kind:
  "Type m \<notin> {MessageTypeOpen, MessageTypeClose, MessageTypePing, MessageTypePong,
              MessageTypeEmpty, MessageTypeEmit, MessageTypeAckRequest, MessageTypeAckResponse}
   \<Longrightarrow> Encode m = ([], Some ErrorWrongMessageType)"
  by (simp add: Encode_def typeToText_def)

theorem Encode_unrecognized_kind_witness:
  "(8::int) \<notin> {MessageTypeOpen, MessageTypeClose, MessageTypePing, MessageTypePong,
              MessageTypeEmpty, MessageTypeEmit, MessageTypeAckRequest, MessageTypeAckResponse}
   \<and> Encode \<lparr>Type = 8, Namespace = ''/chat'', AckId = 1, Method = ''foo'', Args = ''[1]'',
               Source = []\<rparr> = ([], Some ErrorWrongMessageType)"
  using Encode_unrecognized_kind
    [of "\<lparr>Type = 8, Namespace = ''/chat'', AckId = 1, Method = ''foo'', Args = ''[1]'', Source = []\<rparr>"]
  by (simp add: kind_defs)

text \<open>
  C9. \<^verbatim>\<open>Decode\<close> fails with \<^verbatim>\<open>ErrorWrongMessageType\<close> exactly when no wire prefix of the table
  (\<^verbatim>\<open>0\<close>, \<^verbatim>\<open>1\<close>, \<^verbatim>\<open>2\<close>, \<^verbatim>\<open>3\<close>, \<^verbatim>\<open>40\<close>, \<^verbatim>\<open>42\<close>, \<^verbatim>\<open>43\<close>) starts the input: on the empty string, on
  the one-character input \<^verbatim>\<open>4\<close>, and on every input whose first one or two characters match no
  entry of the table; on every other input the outcome is not this error.
\<close>

theorem Decode_WrongMessageType_iff:
  "(Decode data = Some (None, Some ErrorWrongMessageType)) =
     (\<forall>p \<in> set [open, CloseMessage, PingMessage, PongMessage, emptyMessage, commonMessage,
                  ackMessage]. take (length p) data \<noteq> p)"
proof (cases data)
  case Nil
  then show ?thesis
    by (simp add: Decode_Nil open_def CloseMessage_def PingMessage_def PongMessage_def
        emptyMessage_def commonMessage_def ackMessage_def)
next
  case (Cons c cs)
  show ?thesis unfolding Cons Decode_WrongMessageType_Cons
    by (cases cs)
       (auto simp: open_def CloseMessage_def PingMessage_def PongMessage_def
          emptyMessage_def commonMessage_def ackMessage_def)
qed

theorem Decode_WrongMessageType_iff_witness:
  "Decode [] = Some (None, Some ErrorWrongMessageType)
   \<and> Decode ''4'' = Some (None, Some ErrorWrongMessageType)
   \<and> Decode ''41'' = Some (None, Some ErrorWrongMessageType)
   \<and> Decode ''5'' = Some (None, Some ErrorWrongMessageType)
   \<and> Decode ''2'' \<noteq> Some (None, Some ErrorWrongMessageType)
   \<and> Decode ''43x'' \<noteq> Some (None, Some ErrorWrongMessageType)"
  using Decode_WrongMessageType_iff [of "[]"] Decode_WrongMessageType_iff [of "''4''"]
    Decode_WrongMessageType_iff [of "''41''"] Decode_WrongMessageType_iff [of "''5''"]
    Decode_WrongMessageType_iff [of "''2''"] Decode_WrongMessageType_iff [of "''43x''"]
  by (simp add: open_def CloseMessage_def PingMessage_def PongMessage_def
        emptyMessage_def commonMessage_def ackMessage_def)

text \<open>
  C10. On an input that starts with the prefix of Close, Ping, Pong or Empty, \<^verbatim>\<open>Decode\<close>
  always succeeds. The message it returns has the kind, the namespace (the text from a
  leading \<^verbatim>\<open>/\<close> up to the first comma, or empty) and the source; the ack id is 0, the method
  and the arguments are empty, whatever text follows the namespace.
\<close>

theorem Decode_terminal_kinds:
  "(let ns = (if r \<noteq> [] \<and> hd r = CHR ''/'' then takeWhile (\<lambda>x. x \<noteq> CHR '','') r else [])
    in Decode (CloseMessage @ r) =
         Some (Some \<lparr>Type = MessageTypeClose, Namespace = ns, AckId = 0, Method = [], Args = [],
                      Source = CloseMessage @ r\<rparr>, None)
     \<and> Decode (PingMessage @ r) =
         Some (Some \<lparr>Type = MessageTypePing, Namespace = ns, AckId = 0, Method = [], Args = [],
                      Source = PingMessage @ r\<rparr>, None)
     \<and> Decode (PongMessage @ r) =
         Some (Some \<lparr>Type = MessageTypePong, Namespace = ns, AckId = 0, Method = [], Args = [],
                      Source = PongMessage @ r\<rparr>, None)
     \<and> Decode (emptyMessage @ r) =
         Some (Some \<lparr>Type = MessageTypeEmpty, Namespace = ns, AckId = 0, Method = [], Args = [],
                      Source = emptyMessage @ r\<rparr>, None))"
proof -
  obtain ns rest where n: "getNamespace r = Some (ns, rest)"
    using getNamespace_returns by blast
  then have ns: "ns = (if r \<noteq> [] \<and> hd r = CHR ''/'' then takeWhile (\<lambda>x. x \<noteq> CHR '','') r else [])"
    by (auto simp: getNamespace_eq split: if_splits)
  show ?thesis
    unfolding Let_def ns [symmetric]
    by (simp add: CloseMessage_def PingMessage_def PongMessage_def emptyMessage_def
        Decode_Close [OF n] Decode_Ping [OF n] Decode_Pong [OF n] Decode_Empty [OF n])
qed

theorem Decode_terminal_kinds_witness:
  "Decode ''2xyz'' =
     Some (Some \<lparr>Type = MessageTypePing, Namespace = [], AckId = 0, Method = [], Args = [],
                  Source = ''2xyz''\<rparr>, None)
   \<and> Decode ''1/chat,tail'' =
     Some (Some \<lparr>Type = MessageTypeClose, Namespace = ''/chat'', AckId = 0, Method = [], Args = [],
                  Source = ''1/chat,tail''\<rparr>, None)"
  using Decode_terminal_kinds [of "''xyz''"] Decode_terminal_kinds [of "''/chat,tail''"]
  by (simp add: CloseMessage_def PingMessage_def Let_def)

end
